theory Spec2Isabelle
  imports Complex_Main
begin

section \<open>Data model\<close>

text \<open>
  The cleaning pipeline of \<^verbatim>\<open>src/utils/data_cleaner.py\<close> works on pandas
  DataFrames built from lists of Python dicts. A cell is one Python value. \<open>NoneV\<close>
  is Python's \<^verbatim>\<open>None\<close>, \<open>NaN\<close> the float NaN that pandas puts where a value
  is absent; both are "missing" for \<^verbatim>\<open>isna\<close>. Numbers are reals: comparisons of
  floats are exact, rounding of float arithmetic is not modelled, infinities are not
  values.
\<close>

datatype cell =
    NoneV
  | NaN
  | Num real
  | Str string
  | Bool bool
  | Lst "cell list"
  | Dct "(string \<times> cell) list"

text \<open>
  The dtype of a column. \<open>Numeric\<close> stands for \<^verbatim>\<open>int64\<close> and \<^verbatim>\<open>float64\<close>
  (the code always selects both together), \<open>Int64NA\<close> is the nullable extension type
  \<^verbatim>\<open>Int64\<close>, \<open>Category\<close> the result type of \<^verbatim>\<open>pd.cut\<close>.
\<close>

datatype dtype = Numeric | Object | Boolean | Int64NA | Category

record series =
  dtype :: dtype
  cells :: "cell list"

text \<open>
  A DataFrame is a row count and a list of named columns, in column order. The row
  count is kept apart because \<^verbatim>\<open>pd.DataFrame([{}])\<close> has a row and no column.
\<close>

record dataframe =
  nrows :: nat
  columns :: "(string \<times> series) list"

type_synonym pydict = "(string \<times> cell) list"

datatype error = KeyError | TypeError | AttributeError | ValueError | Unmodelled

text \<open>
  What the Python process supplies: the built-in \<^verbatim>\<open>hash\<close> on strings (salted per
  process unless \<^verbatim>\<open>PYTHONHASHSEED\<close> is fixed), the clock read by
  \<^verbatim>\<open>datetime.now()\<close>, already formatted, and the text Python prints for a value that
  is not a string.
\<close>

record runtime =
  str_hash :: "string \<Rightarrow> int"
  now :: string
  py_repr :: "cell \<Rightarrow> string"

fun is_na :: "cell \<Rightarrow> bool" where
  "is_na NoneV = True"
| "is_na NaN = True"
| "is_na _ = False"

fun is_num :: "cell \<Rightarrow> bool" where
  "is_num (Num _) = True"
| "is_num _ = False"

fun is_bool :: "cell \<Rightarrow> bool" where
  "is_bool (Bool _) = True"
| "is_bool _ = False"

definition empty_df :: dataframe where
  "empty_df = \<lparr>nrows = 0, columns = []\<rparr>"

definition col_names :: "dataframe \<Rightarrow> string list" where
  "col_names df = map fst (columns df)"

definition has_col :: "dataframe \<Rightarrow> string \<Rightarrow> bool" where
  "has_col df n = (n \<in> set (col_names df))"

definition get_col :: "dataframe \<Rightarrow> string \<Rightarrow> series option" where
  "get_col df n = map_of (columns df) n"

text \<open>\<^verbatim>\<open>df[n] = s\<close>: replaces the column in place, or appends a new last column.\<close>

definition set_col :: "dataframe \<Rightarrow> string \<Rightarrow> series \<Rightarrow> dataframe" where
  "set_col df n s =
     (if has_col df n
      then df\<lparr>columns := map (\<lambda>(k, v). if k = n then (k, s) else (k, v)) (columns df)\<rparr>
      else df\<lparr>columns := columns df @ [(n, s)]\<rparr>)"

definition drop_col :: "dataframe \<Rightarrow> string \<Rightarrow> dataframe" where
  "drop_col df n = df\<lparr>columns := filter (\<lambda>(k, v). k \<noteq> n) (columns df)\<rparr>"

text \<open>\<^verbatim>\<open>df.empty\<close>: true when either axis has length 0.\<close>

definition df_empty :: "dataframe \<Rightarrow> bool" where
  "df_empty df = (nrows df = 0 \<or> columns df = [])"

subsection \<open>Building a DataFrame from a list of dicts\<close>

text \<open>The keys in order of first appearance.\<close>

fun first_seen :: "'a list \<Rightarrow> 'a list \<Rightarrow> 'a list" where
  "first_seen seen [] = []"
| "first_seen seen (x # xs) =
     (if x \<in> set seen then first_seen seen xs else x # first_seen (x # seen) xs)"

fun none_to_nan :: "cell \<Rightarrow> cell" where
  "none_to_nan NoneV = NaN"
| "none_to_nan c = c"

text \<open>
  Type inference of pandas for one column of Python objects: numbers with missing
  values (not only \<^verbatim>\<open>None\<close>) give a float column where \<^verbatim>\<open>None\<close> becomes NaN;
  booleans with no missing value give a bool column; anything else stays a column of
  objects.
\<close>

definition infer_series :: "cell list \<Rightarrow> series" where
  "infer_series cs =
     (if list_all (\<lambda>c. is_num c \<or> is_na c) cs \<and> list_ex (\<lambda>c. c \<noteq> NoneV) cs
      then \<lparr>dtype = Numeric, cells = map none_to_nan cs\<rparr>
      else if cs \<noteq> [] \<and> list_all is_bool cs
      then \<lparr>dtype = Boolean, cells = cs\<rparr>
      else \<lparr>dtype = Object, cells = cs\<rparr>)"

definition dict_get :: "pydict \<Rightarrow> string \<Rightarrow> cell \<Rightarrow> cell" where
  "dict_get d k dflt = (case map_of d k of None \<Rightarrow> dflt | Some v \<Rightarrow> v)"

definition DataFrame :: "pydict list \<Rightarrow> dataframe" where
  "DataFrame recs =
     \<lparr>nrows = length recs,
      columns = map (\<lambda>k. (k, infer_series (map (\<lambda>r. dict_get r k NaN) recs)))
                    (first_seen [] (concat (map (map fst) recs)))\<rparr>"

subsection \<open>Column names\<close>

definition lower_char :: "char \<Rightarrow> char" where
  "lower_char c =
     (case map_of (zip ''ABCDEFGHIJKLMNOPQRSTUVWXYZ'' ''abcdefghijklmnopqrstuvwxyz'') c of
        None \<Rightarrow> c | Some d \<Rightarrow> d)"

text \<open>\<^verbatim>\<open>name.lower().replace(' ', '_')\<close>, on ASCII letters.\<close>

definition standard_name :: "string \<Rightarrow> string" where
  "standard_name n = map (\<lambda>c. if c = CHR '' '' then CHR ''_'' else c) (map lower_char n)"

definition standardize_columns :: "dataframe \<Rightarrow> dataframe" where
  "standardize_columns df = df\<lparr>columns := map (\<lambda>(k, v). (standard_name k, v)) (columns df)\<rparr>"

text \<open>\<^verbatim>\<open>df[n] = value\<close> with a scalar: the value in every row.\<close>

definition const_series :: "dataframe \<Rightarrow> cell \<Rightarrow> series" where
  "const_series df v = \<lparr>dtype = Object, cells = replicate (nrows df) v\<rparr>"

subsection \<open>Dropping duplicates\<close>

text \<open>
  \<^verbatim>\<open>drop_duplicates(subset, keep='first')\<close>. The key of a row is the list of its
  cells in the subset columns. pandas hashes the cells: \<^verbatim>\<open>True\<close> and \<^verbatim>\<open>1\<close> are one
  key, every missing value is one key, a list or a dict cannot be hashed.
\<close>

fun hashable :: "cell \<Rightarrow> bool" where
  "hashable (Lst _) = False"
| "hashable (Dct _) = False"
| "hashable _ = True"

fun hash_key :: "cell \<Rightarrow> cell" where
  "hash_key NoneV = NaN"
| "hash_key (Bool b) = Num (if b then 1 else 0)"
| "hash_key c = c"

definition key_cells :: "dataframe \<Rightarrow> string \<Rightarrow> cell list" where
  "key_cells df k = (case get_col df k of None \<Rightarrow> [] | Some s \<Rightarrow> cells s)"

definition row_keys :: "dataframe \<Rightarrow> string list \<Rightarrow> cell list list" where
  "row_keys df subset_cols =
     map (\<lambda>i. map (\<lambda>k. hash_key (key_cells df k ! i)) subset_cols) [0..<nrows df]"

text \<open>The mask of the rows that are kept: those whose key was not seen before.\<close>

fun keep_first :: "'k list \<Rightarrow> 'k list \<Rightarrow> bool list" where
  "keep_first seen [] = []"
| "keep_first seen (k # ks) = (k \<notin> set seen) # keep_first (k # seen) ks"

definition select :: "bool list \<Rightarrow> 'a list \<Rightarrow> 'a list" where
  "select kept xs = map snd (filter fst (zip kept xs))"

definition take_rows :: "bool list \<Rightarrow> dataframe \<Rightarrow> dataframe" where
  "take_rows kept df =
     \<lparr>nrows = length (filter id kept),
      columns = map (\<lambda>(k, s). (k, s\<lparr>cells := select kept (cells s)\<rparr>)) (columns df)\<rparr>"

definition drop_duplicates :: "string list \<Rightarrow> dataframe \<Rightarrow> error + dataframe" where
  "drop_duplicates subset_cols df =
     (if df_empty df then Inr df
      else if \<not> list_all (has_col df) subset_cols then Inl KeyError
      else if \<not> list_all (\<lambda>k. list_all hashable (key_cells df k)) subset_cols then Inl TypeError
      else Inr (take_rows (keep_first [] (row_keys df subset_cols)) df))"

subsection \<open>Missing values\<close>

definition fillna :: "cell \<Rightarrow> series \<Rightarrow> series" where
  "fillna v s = s\<lparr>cells := map (\<lambda>c. if is_na c then v else c) (cells s)\<rparr>"

definition has_na :: "series \<Rightarrow> bool" where
  "has_na s = list_ex is_na (cells s)"

fun num_val :: "cell \<Rightarrow> real" where
  "num_val (Num x) = x"
| "num_val (Bool b) = (if b then 1 else 0)"
| "num_val _ = 0"

text \<open>The numbers of a numeric column, the missing values skipped.\<close>

definition present :: "series \<Rightarrow> real list" where
  "present s = map num_val (filter (\<lambda>c. \<not> is_na c) (cells s))"

text \<open>\<^verbatim>\<open>Series.median()\<close>: NaN when no value is present.\<close>

definition median :: "real list \<Rightarrow> cell" where
  "median xs =
     (let ys = sort xs; n = length ys
      in if n = 0 then NaN
         else if odd n then Num (ys ! (n div 2))
         else Num ((ys ! (n div 2 - 1) + ys ! (n div 2)) / 2))"

definition fill_numeric :: "string \<times> series \<Rightarrow> string \<times> series" where
  "fill_numeric = (\<lambda>(col, s).
     if dtype s = Numeric \<and> has_na s
     then (if col \<in> set [''price'', ''rating'', ''stock'']
           then (col, fillna (Num 0) s)
           else (col, fillna (median (present s)) s))
     else (col, s))"

definition fill_string :: "string \<times> series \<Rightarrow> string \<times> series" where
  "fill_string = (\<lambda>(col, s).
     if dtype s = Object \<and> has_na s
     then (if col \<in> set [''description'', ''title'', ''category'', ''brand'']
           then (col, fillna (Str ''Unknown'') s)
           else (col, fillna (Str '''') s))
     else (col, s))"

definition fill_bool :: "string \<times> series \<Rightarrow> string \<times> series" where
  "fill_bool = (\<lambda>(col, s).
     if dtype s = Boolean then (col, fillna (Bool False) s) else (col, s))"

text \<open>
  \<^verbatim>\<open>_handle_missing_values\<close>: three passes over the columns, selected by dtype.
  \<^verbatim>\<open>df[col].fillna(v, inplace=True)\<close> is taken to update the frame, as it does in
  pandas before copy-on-write.
\<close>

definition handle_missing_values :: "dataframe \<Rightarrow> dataframe" where
  "handle_missing_values df =
     df\<lparr>columns := map fill_bool (map fill_string (map fill_numeric (columns df)))\<rparr>"

subsection \<open>Type coercion\<close>

definition and_then :: "error + 'a \<Rightarrow> ('a \<Rightarrow> error + 'b) \<Rightarrow> error + 'b" where
  "and_then m f = (case m of Inl e \<Rightarrow> Inl e | Inr x \<Rightarrow> f x)"

fun map_res :: "('a \<Rightarrow> error + 'b) \<Rightarrow> 'a list \<Rightarrow> error + 'b list" where
  "map_res f [] = Inr []"
| "map_res f (x # xs) =
     (case f x of
        Inl e \<Rightarrow> Inl e
      | Inr y \<Rightarrow> (case map_res f xs of Inl e \<Rightarrow> Inl e | Inr ys \<Rightarrow> Inr (y # ys)))"

definition digit_val :: "char \<Rightarrow> nat option" where
  "digit_val c = map_of (zip ''0123456789'' [0, 1, 2, 3, 4, 5, 6, 7, 8, 9]) c"

fun digits_val :: "nat \<Rightarrow> string \<Rightarrow> nat option" where
  "digits_val acc [] = Some acc"
| "digits_val acc (c # cs) =
     (case digit_val c of None \<Rightarrow> None | Some d \<Rightarrow> digits_val (10 * acc + d) cs)"

definition parse_unsigned :: "string \<Rightarrow> real option" where
  "parse_unsigned s =
     (let ip = takeWhile (\<lambda>c. c \<noteq> CHR ''.'') s; rest = dropWhile (\<lambda>c. c \<noteq> CHR ''.'') s
      in if ip = [] then None
         else (case rest of
                 [] \<Rightarrow> map_option real (digits_val 0 ip)
               | dot # fp \<Rightarrow>
                   (if fp = [] then None
                    else (case (digits_val 0 ip, digits_val 0 fp) of
                            (Some i, Some f) \<Rightarrow> Some (real i + real f / 10 ^ length fp)
                          | _ \<Rightarrow> None))))"

text \<open>Plain decimal numerals: an optional sign, digits, and an optional fraction.\<close>

definition parse_decimal :: "string \<Rightarrow> real option" where
  "parse_decimal s =
     (case s of
        [] \<Rightarrow> None
      | c # r \<Rightarrow>
          (if c = CHR ''-'' then map_option uminus (parse_unsigned r)
           else if c = CHR ''+'' then parse_unsigned r
           else parse_unsigned s))"

text \<open>
  One cell under \<^verbatim>\<open>pd.to_numeric(errors='coerce')\<close>. The empty string does not
  parse and becomes NaN; a plain decimal numeral becomes its value. Other text
  (exponents, blanks, \<^verbatim>\<open>inf\<close>, unparsable words) is not modelled: \<open>None\<close>.
\<close>

fun coerce_cell :: "cell \<Rightarrow> cell option" where
  "coerce_cell NoneV = Some NaN"
| "coerce_cell NaN = Some NaN"
| "coerce_cell (Num x) = Some (Num x)"
| "coerce_cell (Bool b) = Some (Num (if b then 1 else 0))"
| "coerce_cell (Str s) =
     (if s = [] then Some NaN
      else (case parse_decimal s of None \<Rightarrow> None | Some x \<Rightarrow> Some (Num x)))"
| "coerce_cell (Lst _) = Some NaN"
| "coerce_cell (Dct _) = Some NaN"

definition to_numeric :: "series \<Rightarrow> error + series" where
  "to_numeric s =
     (case dtype s of
        Numeric \<Rightarrow> Inr s
      | Boolean \<Rightarrow> Inr s
      | Int64NA \<Rightarrow> Inr s
      | Category \<Rightarrow> Inl Unmodelled
      | Object \<Rightarrow>
          (if cells s \<noteq> [] \<and> list_all is_bool (cells s) then Inr (s\<lparr>dtype := Boolean\<rparr>)
           else (case those (map coerce_cell (cells s)) of
                   None \<Rightarrow> Inl Unmodelled
                 | Some cs \<Rightarrow> Inr \<lparr>dtype = Numeric, cells = cs\<rparr>)))"

fun integral :: "cell \<Rightarrow> bool" where
  "integral (Num x) = (x = of_int \<lfloor>x\<rfloor>)"
| "integral _ = True"

text \<open>
  \<^verbatim>\<open>.astype('Int64')\<close> on the result of \<^verbatim>\<open>to_numeric\<close>: a float that is not a whole
  number cannot be cast.
\<close>

definition astype_Int64 :: "series \<Rightarrow> error + series" where
  "astype_Int64 s =
     (case dtype s of
        Numeric \<Rightarrow>
          (if list_all integral (cells s) then Inr (s\<lparr>dtype := Int64NA\<rparr>) else Inl TypeError)
      | Boolean \<Rightarrow> Inr \<lparr>dtype = Int64NA, cells = map (\<lambda>c. Num (num_val c)) (cells s)\<rparr>
      | Int64NA \<Rightarrow> Inr s
      | Object \<Rightarrow> Inl Unmodelled
      | Category \<Rightarrow> Inl Unmodelled)"

text \<open>Python's truth value of a cell; NaN is a non-zero float.\<close>

fun truthy :: "cell \<Rightarrow> bool" where
  "truthy NoneV = False"
| "truthy NaN = True"
| "truthy (Num x) = (x \<noteq> 0)"
| "truthy (Str s) = (s \<noteq> [])"
| "truthy (Bool b) = b"
| "truthy (Lst xs) = (xs \<noteq> [])"
| "truthy (Dct kvs) = (kvs \<noteq> [])"

definition astype_bool :: "series \<Rightarrow> error + series" where
  "astype_bool s =
     (case dtype s of
        Category \<Rightarrow> Inl Unmodelled
      | Int64NA \<Rightarrow>
          (if has_na s then Inl ValueError
           else Inr \<lparr>dtype = Boolean, cells = map (\<lambda>c. Bool (truthy c)) (cells s)\<rparr>)
      | _ \<Rightarrow> Inr \<lparr>dtype = Boolean, cells = map (\<lambda>c. Bool (truthy c)) (cells s)\<rparr>)"

definition coerce_numeric_col :: "string \<Rightarrow> dataframe \<Rightarrow> error + dataframe" where
  "coerce_numeric_col col df =
     (case get_col df col of
        None \<Rightarrow> Inr df
      | Some s \<Rightarrow> and_then (to_numeric s) (\<lambda>s'. Inr (set_col df col s')))"

definition coerce_id_col :: "dataframe \<Rightarrow> error + dataframe" where
  "coerce_id_col df =
     (case get_col df ''id'' of
        None \<Rightarrow> Inr df
      | Some s \<Rightarrow>
          and_then (to_numeric s) (\<lambda>s1.
          and_then (astype_Int64 s1) (\<lambda>s2. Inr (set_col df ''id'' s2))))"

fun coerce_bool_cols :: "string list \<Rightarrow> dataframe \<Rightarrow> error + dataframe" where
  "coerce_bool_cols [] df = Inr df"
| "coerce_bool_cols (col # rest) df =
     (case get_col df col of
        None \<Rightarrow> coerce_bool_cols rest df
      | Some s \<Rightarrow> and_then (astype_bool s) (\<lambda>s'. coerce_bool_cols rest (set_col df col s')))"

definition bool_candidates :: "string list" where
  "bool_candidates = [''in_stock'', ''onsale'', ''returnable'']"

text \<open>\<^verbatim>\<open>_validate_data_types\<close>.\<close>

definition validate_data_types :: "dataframe \<Rightarrow> error + dataframe" where
  "validate_data_types df =
     and_then (coerce_numeric_col ''price'' df) (\<lambda>df.
     and_then (coerce_numeric_col ''rating'' df) (\<lambda>df.
     and_then (coerce_numeric_col ''stock'' df) (\<lambda>df.
     and_then (coerce_id_col df) (\<lambda>df.
     coerce_bool_cols bool_candidates df))))"

section \<open>Per-source normalizers\<close>

subsection \<open>Flattening the nested structures of an API record\<close>

text \<open>
  \<^verbatim>\<open>pd.json_normalize(df['dimensions'])\<close> on dicts of scalars is the frame of those
  dicts. A cell that is not a dict, or a dict that holds a dict, is not modelled.
\<close>

fun flat_dict :: "cell \<Rightarrow> pydict option" where
  "flat_dict (Dct kvs) =
     (if list_ex (\<lambda>(k, v). case v of Dct d \<Rightarrow> True | _ \<Rightarrow> False) kvs then None else Some kvs)"
| "flat_dict _ = None"

definition json_normalize :: "cell list \<Rightarrow> error + dataframe" where
  "json_normalize cs =
     (case those (map flat_dict cs) of None \<Rightarrow> Inl Unmodelled | Some ds \<Rightarrow> Inr (DataFrame ds))"

definition flatten_dimensions :: "dataframe \<Rightarrow> error + dataframe" where
  "flatten_dimensions df =
     (case get_col df ''dimensions'' of
        None \<Rightarrow> Inr df
      | Some s \<Rightarrow>
          and_then (json_normalize (cells s)) (\<lambda>dimensions_df.
            Inr ((drop_col df ''dimensions'')
                   \<lparr>columns := columns (drop_col df ''dimensions'') @
                      map (\<lambda>(col, v). (''dimension_'' @ col, v)) (columns dimensions_df)\<rparr>)))"

text \<open>
  \<^verbatim>\<open>sum(r.get('rating', 0) for r in x)\<close>: an element without \<^verbatim>\<open>get\<close> raises
  AttributeError, a rating that is not a number raises TypeError.
\<close>

fun sum_ratings :: "real \<Rightarrow> cell list \<Rightarrow> error + real" where
  "sum_ratings acc [] = Inr acc"
| "sum_ratings acc (r # rs) =
     (case r of
        Dct kvs \<Rightarrow>
          (case dict_get kvs ''rating'' (Num 0) of
             Num x \<Rightarrow> sum_ratings (acc + x) rs
           | Bool b \<Rightarrow> sum_ratings (acc + (if b then 1 else 0)) rs
           | NaN \<Rightarrow> Inl Unmodelled
           | _ \<Rightarrow> Inl TypeError)
      | _ \<Rightarrow> Inl AttributeError)"

fun avg_review_rating :: "cell \<Rightarrow> error + cell" where
  "avg_review_rating (Lst x) =
     (if length x > 0
      then and_then (sum_ratings 0 x) (\<lambda>total. Inr (Num (total / real (length x))))
      else Inr NoneV)"
| "avg_review_rating _ = Inr NoneV"

fun list_len :: "cell \<Rightarrow> cell" where
  "list_len (Lst x) = Num (real (length x))"
| "list_len _ = Num 0"

fun first_item :: "cell \<Rightarrow> cell" where
  "first_item (Lst (x # xs)) = x"
| "first_item _ = NoneV"

definition flatten_reviews :: "dataframe \<Rightarrow> error + dataframe" where
  "flatten_reviews df =
     (case get_col df ''reviews'' of
        None \<Rightarrow> Inr df
      | Some s \<Rightarrow>
          and_then (map_res avg_review_rating (cells s)) (\<lambda>avgs.
            Inr (drop_col
                   (set_col (set_col df ''avg_review_rating'' (infer_series avgs))
                      ''num_reviews'' (infer_series (map list_len (cells s))))
                   ''reviews'')))"

definition flatten_images :: "dataframe \<Rightarrow> dataframe" where
  "flatten_images df =
     (case get_col df ''images'' of
        None \<Rightarrow> df
      | Some s \<Rightarrow>
          drop_col
            (set_col (set_col df ''main_image'' (infer_series (map first_item (cells s))))
               ''num_images'' (infer_series (map list_len (cells s))))
            ''images'')"

subsection \<open>\<^verbatim>\<open>clean_api_data\<close>\<close>

definition clean_api_data :: "runtime \<Rightarrow> pydict list \<Rightarrow> error + dataframe" where
  "clean_api_data env products =
     (if products = [] then Inr empty_df
      else
        and_then (flatten_dimensions (DataFrame products)) (\<lambda>df.
        and_then (flatten_reviews (if has_col df ''meta'' then drop_col df ''meta'' else df)) (\<lambda>df.
          (let df = standardize_columns (flatten_images df);
               df = set_col df ''data_source'' (const_series df (Str ''DummyJSON_API''));
               df = set_col df ''scraped_at'' (const_series df (Str (now env)))
           in and_then (drop_duplicates [''id''] df) (\<lambda>df.
                validate_data_types (handle_missing_values df))))))"

subsection \<open>\<^verbatim>\<open>clean_web_scraped_data\<close>\<close>

text \<open>The text an f-string puts for a value.\<close>

definition py_format :: "runtime \<Rightarrow> cell \<Rightarrow> string" where
  "py_format env c =
     (case c of
        Str s \<Rightarrow> s
      | NoneV \<Rightarrow> ''None''
      | NaN \<Rightarrow> ''nan''
      | Bool b \<Rightarrow> (if b then ''True'' else ''False'')
      | _ \<Rightarrow> py_repr env c)"

text \<open>\<^verbatim>\<open>hash(f"{title}_{product_url}") % 1000000\<close>.\<close>

definition synth_id :: "runtime \<Rightarrow> cell \<Rightarrow> cell \<Rightarrow> int" where
  "synth_id env title product_url =
     str_hash env (py_format env title @ ''_'' @ py_format env product_url) mod 1000000"

text \<open>\<^verbatim>\<open>row.get(n, dflt)\<close> for every row: the column, or the default where there is none.\<close>

definition row_get :: "dataframe \<Rightarrow> string \<Rightarrow> cell \<Rightarrow> cell list" where
  "row_get df n dflt =
     (case get_col df n of None \<Rightarrow> replicate (nrows df) dflt | Some s \<Rightarrow> cells s)"

definition synth_ids :: "runtime \<Rightarrow> dataframe \<Rightarrow> series" where
  "synth_ids env df =
     \<lparr>dtype = Numeric,
      cells = map2 (\<lambda>t u. Num (of_int (synth_id env t u)))
                (row_get df ''title'' (Str '''')) (row_get df ''product_url'' (Str ''''))\<rparr>"

definition clean_web_scraped_data :: "runtime \<Rightarrow> pydict list \<Rightarrow> error + dataframe" where
  "clean_web_scraped_data env products =
     (if products = [] then Inr empty_df
      else
        (let df = standardize_columns (DataFrame products);
             df = set_col df ''id'' (synth_ids env df);
             df = set_col df ''data_source'' (const_series df (Str ''BooksToScrape_Web''));
             df = set_col df ''scraped_at'' (const_series df (Str (now env)))
         in and_then (drop_duplicates [''id''] df) (\<lambda>df.
              validate_data_types (handle_missing_values df))))"

section \<open>Merger\<close>

text \<open>\<^verbatim>\<open>ensure_dtype_can_hold_na\<close>: a bool column that gets a missing value holds objects.\<close>

fun hold_na :: "dtype \<Rightarrow> dtype" where
  "hold_na Boolean = Object"
| "hold_na d = d"

definition concat_column :: "dataframe \<Rightarrow> dataframe \<Rightarrow> string \<Rightarrow> error + (string \<times> series)" where
  "concat_column a b n =
     (case (get_col a n, get_col b n) of
        (Some sa, Some sb) \<Rightarrow>
          (if dtype sa = dtype sb
           then Inr (n, \<lparr>dtype = dtype sa, cells = cells sa @ cells sb\<rparr>)
           else Inl Unmodelled)
      | (Some sa, None) \<Rightarrow>
          Inr (n, \<lparr>dtype = hold_na (dtype sa), cells = cells sa @ replicate (nrows b) NaN\<rparr>)
      | (None, Some sb) \<Rightarrow>
          Inr (n, \<lparr>dtype = hold_na (dtype sb), cells = replicate (nrows a) NaN @ cells sb\<rparr>)
      | (None, None) \<Rightarrow> Inl KeyError)"

text \<open>
  \<^verbatim>\<open>pd.concat([a, b], axis=0, ignore_index=True, sort=False)\<close>. Frames of shape
  (0, 0) are left out when another frame remains. The columns are those of \<open>a\<close>,
  then the new ones of \<open>b\<close>; a column absent from one frame is NaN there. Two columns
  of one name and different dtypes are not modelled.
\<close>

definition concat_rows :: "dataframe \<Rightarrow> dataframe \<Rightarrow> error + dataframe" where
  "concat_rows a b =
     (case filter (\<lambda>d. nrows d + length (columns d) > 0) [a, b] of
        [] \<Rightarrow> Inr empty_df
      | [d] \<Rightarrow> Inr d
      | _ \<Rightarrow>
          and_then
            (map_res (concat_column a b)
               (col_names a @ filter (\<lambda>n. n \<notin> set (col_names a)) (col_names b)))
            (\<lambda>cs. Inr \<lparr>nrows = nrows a + nrows b, columns = cs\<rparr>))"

text \<open>\<^verbatim>\<open>merge_datasets\<close> (the common columns are computed for the log only).\<close>

definition merge_datasets :: "dataframe \<Rightarrow> dataframe \<Rightarrow> error + dataframe" where
  "merge_datasets df_api df_web =
     and_then (concat_rows df_api df_web) (drop_duplicates [''id'', ''data_source''])"

section \<open>Enricher\<close>

text \<open>
  \<^verbatim>\<open>pd.cut(x, bins, labels)\<close> with the default \<^verbatim>\<open>right=True\<close> and
  \<^verbatim>\<open>include_lowest=False\<close>: the bin between two neighbouring edges \<open>lo\<close> and \<open>hi\<close>
  holds the values with \<open>lo < x \<le> hi\<close>; a value in no bin gets NaN.
\<close>

datatype edge = Fin real | PosInf

fun below :: "edge \<Rightarrow> real \<Rightarrow> bool" where
  "below (Fin lo) x = (lo < x)"
| "below PosInf x = False"

fun upto_edge :: "real \<Rightarrow> edge \<Rightarrow> bool" where
  "upto_edge x (Fin hi) = (x \<le> hi)"
| "upto_edge x PosInf = True"

fun cut_value :: "edge list \<Rightarrow> string list \<Rightarrow> real \<Rightarrow> cell" where
  "cut_value (lo # hi # bins) (label # labels) x =
     (if below lo x \<and> upto_edge x hi then Str label else cut_value (hi # bins) labels x)"
| "cut_value _ _ x = NaN"

definition cut_cell :: "edge list \<Rightarrow> string list \<Rightarrow> cell \<Rightarrow> cell" where
  "cut_cell bins labels c = (if is_na c then NaN else cut_value bins labels (num_val c))"

text \<open>Only number columns are cut in the model; a column of objects is not modelled.\<close>

definition cut :: "series \<Rightarrow> edge list \<Rightarrow> string list \<Rightarrow> error + series" where
  "cut s bins labels =
     (if dtype s \<in> {Numeric, Int64NA, Boolean}
      then Inr \<lparr>dtype = Category, cells = map (cut_cell bins labels) (cells s)\<rparr>
      else Inl Unmodelled)"

definition price_bins :: "edge list" where
  "price_bins = [Fin 0, Fin 20, Fin 50, Fin 100, PosInf]"

definition price_labels :: "string list" where
  "price_labels = [''Budget'', ''Mid-Range'', ''Premium'', ''Luxury'']"

definition rating_bins :: "edge list" where
  "rating_bins = [Fin 0, Fin 2, Fin 3, Fin 4, Fin 5]"

definition rating_labels :: "string list" where
  "rating_labels = [''Poor'', ''Fair'', ''Good'', ''Excellent'']"

definition is_space :: "char \<Rightarrow> bool" where
  "is_space c = (c \<in> set [CHR '' '', CHR 0x09, CHR 0x0A, CHR 0x0B, CHR 0x0C, CHR 0x0D,
                          CHR 0x1C, CHR 0x1D, CHR 0x1E, CHR 0x1F])"

text \<open>\<^verbatim>\<open>len(s.split())\<close>: the number of maximal runs of non-blank characters.\<close>

fun word_count :: "bool \<Rightarrow> string \<Rightarrow> nat" where
  "word_count in_word [] = 0"
| "word_count in_word (c # cs) =
     (if is_space c then word_count False cs
      else (if in_word then 0 else 1) + word_count True cs)"

fun str_len :: "cell \<Rightarrow> cell" where
  "str_len (Str s) = Num (real (length s))"
| "str_len (Lst xs) = Num (real (length xs))"
| "str_len (Dct kvs) = Num (real (length kvs))"
| "str_len _ = NaN"

fun str_split_len :: "cell \<Rightarrow> cell" where
  "str_split_len (Str s) = Num (real (word_count False s))"
| "str_split_len _ = NaN"

fun positive :: "cell \<Rightarrow> cell" where
  "positive (Num x) = Bool (x > 0)"
| "positive _ = Bool False"

text \<open>The \<^verbatim>\<open>.str\<close> accessor exists on columns of objects only.\<close>

definition str_column :: "series \<Rightarrow> (cell \<Rightarrow> cell) \<Rightarrow> error + series" where
  "str_column s f =
     (if dtype s = Object then Inr \<lparr>dtype = Numeric, cells = map f (cells s)\<rparr>
      else if dtype s = Category then Inl Unmodelled
      else Inl AttributeError)"

definition add_price_category :: "dataframe \<Rightarrow> error + dataframe" where
  "add_price_category df =
     (case get_col df ''price'' of
        None \<Rightarrow> Inr df
      | Some s \<Rightarrow>
          and_then (cut s price_bins price_labels) (\<lambda>c. Inr (set_col df ''price_category'' c)))"

definition add_rating_category :: "dataframe \<Rightarrow> error + dataframe" where
  "add_rating_category df =
     (case get_col df ''rating'' of
        None \<Rightarrow> Inr df
      | Some s \<Rightarrow>
          and_then (cut s rating_bins rating_labels) (\<lambda>c. Inr (set_col df ''rating_category'' c)))"

definition add_title_fields :: "dataframe \<Rightarrow> error + dataframe" where
  "add_title_fields df =
     (case get_col df ''title'' of
        None \<Rightarrow> Inr df
      | Some s \<Rightarrow>
          and_then (str_column s str_len) (\<lambda>l.
          and_then (str_column s str_split_len) (\<lambda>w.
            Inr (set_col (set_col df ''title_length'' l) ''title_word_count'' w))))"

definition add_description_fields :: "dataframe \<Rightarrow> error + dataframe" where
  "add_description_fields df =
     (case get_col df ''description'' of
        None \<Rightarrow> Inr df
      | Some s \<Rightarrow>
          and_then (str_column s str_len) (\<lambda>l.
          and_then (str_column s str_split_len) (\<lambda>w.
            Inr (set_col
                   (set_col (set_col df ''description_length'' l) ''description_word_count'' w)
                   ''has_description'' \<lparr>dtype = Boolean, cells = map positive (cells l)\<rparr>))))"

text \<open>
  \<^verbatim>\<open>add_calculated_fields\<close>. The discount percentage is a rounded float quotient;
  a frame that has both \<^verbatim>\<open>price\<close> and \<^verbatim>\<open>regularprice\<close> is not modelled.
\<close>

definition add_calculated_fields :: "dataframe \<Rightarrow> error + dataframe" where
  "add_calculated_fields df =
     and_then (add_price_category df) (\<lambda>df.
     and_then (add_rating_category df) (\<lambda>df.
     and_then (add_title_fields df) (\<lambda>df.
     and_then (add_description_fields df) (\<lambda>df.
       if has_col df ''price'' \<and> has_col df ''regularprice'' then Inl Unmodelled
       else Inr df))))"

section \<open>Statistics summarizer\<close>

text \<open>
  The aggregates of a numeric column skip the missing values and are NaN when no value
  is left (the standard deviation, with one value or none).
\<close>

definition mean :: "real list \<Rightarrow> cell" where
  "mean xs = (if xs = [] then NaN else Num (sum_list xs / real (length xs)))"

definition minimum :: "real list \<Rightarrow> cell" where
  "minimum xs = (case xs of [] \<Rightarrow> NaN | x # rest \<Rightarrow> Num (fold min rest x))"

definition maximum :: "real list \<Rightarrow> cell" where
  "maximum xs = (case xs of [] \<Rightarrow> NaN | x # rest \<Rightarrow> Num (fold max rest x))"

definition std :: "real list \<Rightarrow> cell" where
  "std xs =
     (if length xs < 2 then NaN
      else (let m = sum_list xs / real (length xs)
            in Num (sqrt (sum_list (map (\<lambda>x. (x - m)\<^sup>2) xs) / real (length xs - 1)))))"

definition aggregates :: "series \<Rightarrow> bool \<Rightarrow> error + cell" where
  "aggregates s with_std =
     (if dtype s = Numeric
      then Inr (Dct ([(''mean'', mean (present s)), (''median'', median (present s)),
                      (''min'', minimum (present s)), (''max'', maximum (present s))] @
                     (if with_std then [(''std'', std (present s))] else [])))
      else Inl Unmodelled)"

fun dtype_name :: "dtype \<Rightarrow> string" where
  "dtype_name Numeric = ''float64''"
| "dtype_name Object = ''object''"
| "dtype_name Boolean = ''bool''"
| "dtype_name Int64NA = ''Int64''"
| "dtype_name Category = ''category''"

definition count_na :: "series \<Rightarrow> cell" where
  "count_na s = Num (real (length (filter is_na (cells s))))"

fun str_key :: "cell \<Rightarrow> string option" where
  "str_key (Str s) = Some s"
| "str_key _ = None"

text \<open>
  \<^verbatim>\<open>value_counts().to_dict()\<close>, for a column whose present values are strings: each
  value with the number of its occurrences (listed here in order of first appearance).
\<close>

definition value_counts :: "series \<Rightarrow> error + cell" where
  "value_counts s =
     (case those (map str_key (filter (\<lambda>c. \<not> is_na c) (cells s))) of
        None \<Rightarrow> Inl Unmodelled
      | Some ks \<Rightarrow> Inr (Dct (map (\<lambda>k. (k, Num (real (count_list ks k)))) (first_seen [] ks))))"

definition stock_stats :: "dataframe \<Rightarrow> series \<Rightarrow> error + cell" where
  "stock_stats df s =
     (if dtype s = Category then Inl Unmodelled
      else
        (let in_stock_bool = map (\<lambda>c. if is_na c then False else truthy c) (cells s);
             n_in = length (filter id in_stock_bool)
         in Inr (Dct [(''in_stock'', Num (real n_in)),
                      (''out_of_stock'', Num (real (length (filter Not in_stock_bool)))),
                      (''in_stock_percentage'',
                         if nrows df = 0 then NaN else Num (real n_in / real (nrows df) * 100))])))"

text \<open>One conditional block: present exactly when the source column is.\<close>

definition block :: "dataframe \<Rightarrow> string \<Rightarrow> string \<Rightarrow> (series \<Rightarrow> error + cell) \<Rightarrow> pydict
                       \<Rightarrow> error + pydict" where
  "block df col name f stats =
     (case get_col df col of
        None \<Rightarrow> Inr stats
      | Some s \<Rightarrow> and_then (f s) (\<lambda>v. Inr (stats @ [(name, v)])))"

text \<open>
  \<^verbatim>\<open>generate_statistics\<close>; the statistics object is a dict. The model reports
  \<^verbatim>\<open>float64\<close> for every column of numbers in \<^verbatim>\<open>data_types\<close>, also where pandas
  says \<^verbatim>\<open>int64\<close>.
\<close>

definition generate_statistics :: "dataframe \<Rightarrow> error + pydict" where
  "generate_statistics df =
     (let stats = [(''total_products'', Num (real (nrows df))),
                   (''total_columns'', Num (real (length (columns df)))),
                   (''missing_values'', Dct (map (\<lambda>(k, s). (k, count_na s)) (columns df))),
                   (''data_types'', Dct (map (\<lambda>(k, s). (k, Str (dtype_name (dtype s)))) (columns df)))]
      in and_then (block df ''price'' ''price_stats'' (\<lambda>s. aggregates s True) stats) (\<lambda>stats.
         and_then (block df ''rating'' ''rating_stats'' (\<lambda>s. aggregates s False) stats) (\<lambda>stats.
         and_then (block df ''category'' ''category_distribution'' value_counts stats) (\<lambda>stats.
         and_then (block df ''data_source'' ''data_source_distribution'' value_counts stats) (\<lambda>stats.
         block df ''in_stock'' ''stock_stats'' (stock_stats df) stats)))))"

section \<open>Reading results, and the inputs of the examples\<close>

definition result_col :: "error + dataframe \<Rightarrow> string \<Rightarrow> series option" where
  "result_col r n = (case r of Inl e \<Rightarrow> None | Inr df \<Rightarrow> get_col df n)"

definition stats_block :: "error + pydict \<Rightarrow> string \<Rightarrow> cell option" where
  "stats_block r k = (case r of Inl e \<Rightarrow> None | Inr st \<Rightarrow> map_of st k)"


text \<open>Two processes that differ in the salt of \<^verbatim>\<open>hash\<close> only.\<close>

definition process_a :: runtime where
  "process_a = \<lparr>str_hash = (\<lambda>s. 1), now = ''2024-01-01 00:00:00'', py_repr = (\<lambda>c. '''')\<rparr>"

definition process_b :: runtime where
  "process_b = \<lparr>str_hash = (\<lambda>s. 2), now = ''2024-01-01 00:00:00'', py_repr = (\<lambda>c. '''')\<rparr>"

text \<open>A crawled book whose price could not be read.\<close>

definition one_book :: "pydict list" where
  "one_book = [[(''title'', Str ''A''), (''product_url'', Str ''u''), (''price'', NoneV)]]"

text \<open>Two API products; the second has no \<^verbatim>\<open>featured\<close> flag.\<close>

definition two_products :: "pydict list" where
  "two_products = [[(''id'', Num 1), (''featured'', Bool True)], [(''id'', Num 2)]]"

text \<open>A table whose prices and ratings are all missing.\<close>

definition all_missing :: dataframe where
  "all_missing =
     \<lparr>nrows = 2,
      columns = [(''price'', \<lparr>dtype = Numeric, cells = [NaN, NaN]\<rparr>),
                 (''rating'', \<lparr>dtype = Numeric, cells = [NaN, NaN]\<rparr>)]\<rparr>"

text \<open>Prices on the bin edges.\<close>

definition edge_prices :: dataframe where
  "edge_prices =
     \<lparr>nrows = 4,
      columns = [(''price'', \<lparr>dtype = Numeric, cells = [Num 20, Num 50, Num 100, Num 101]\<rparr>)]\<rparr>"

text \<open>A product without price and rating, beside one that has both.\<close>

definition unpriced :: "pydict list" where
  "unpriced = [[(''id'', Num 1), (''price'', NoneV), (''rating'', NoneV)],
               [(''id'', Num 2), (''price'', Num 30), (''rating'', Num 4)]]"

text \<open>What \<^verbatim>\<open>clean_api_data\<close> returns for it in the process \<open>process_a\<close>.\<close>

definition unpriced_clean :: dataframe where
  "unpriced_clean =
     \<lparr>nrows = 2,
      columns = [(''id'', \<lparr>dtype = Int64NA, cells = [Num 1, Num 2]\<rparr>),
                 (''price'', \<lparr>dtype = Numeric, cells = [Num 0, Num 30]\<rparr>),
                 (''rating'', \<lparr>dtype = Numeric, cells = [Num 0, Num 4]\<rparr>),
                 (''data_source'',
                    \<lparr>dtype = Object, cells = [Str ''DummyJSON_API'', Str ''DummyJSON_API'']\<rparr>),
                 (''scraped_at'',
                    \<lparr>dtype = Object,
                      cells = [Str ''2024-01-01 00:00:00'', Str ''2024-01-01 00:00:00'']\<rparr>)]\<rparr>"

text \<open>What the three passes of the missing-value step make of one column.\<close>

definition fill_column :: "string \<Rightarrow> series \<Rightarrow> series" where
  "fill_column n s = snd (fill_bool (fill_string (fill_numeric (n, s))))"



text \<open>
  A frame is well formed when every column has one cell per row, no two columns share
  a name, and a frame without columns has no rows (the frames the normalizers return).
\<close>

definition wf_df :: "dataframe \<Rightarrow> bool" where
  "wf_df df =
     (list_all (\<lambda>(k, s). length (cells s) = nrows df) (columns df) \<and>
      distinct (col_names df) \<and> (nrows df = 0 \<or> columns df \<noteq> []))"


text \<open>The rows of a list of columns of length \<open>n\<close>.\<close>

definition rows_of :: "'a list list \<Rightarrow> nat \<Rightarrow> 'a list list" where
  "rows_of cs n = map (\<lambda>i. map (\<lambda>c. c ! i) cs) [0..<n]"

text \<open>What \<^verbatim>\<open>clean_web_scraped_data\<close> returns for \<open>one_book\<close> in the process \<open>process_a\<close>.\<close>

definition one_book_clean :: dataframe where
  "one_book_clean =
     \<lparr>nrows = 1,
      columns = [(''title'', \<lparr>dtype = Object, cells = [Str ''A'']\<rparr>),
                 (''product_url'', \<lparr>dtype = Object, cells = [Str ''u'']\<rparr>),
                 (''price'', \<lparr>dtype = Numeric, cells = [NaN]\<rparr>),
                 (''id'', \<lparr>dtype = Int64NA, cells = [Num 1]\<rparr>),
                 (''data_source'', \<lparr>dtype = Object, cells = [Str ''BooksToScrape_Web'']\<rparr>),
                 (''scraped_at'', \<lparr>dtype = Object, cells = [Str ''2024-01-01 00:00:00'']\<rparr>)]\<rparr>"

text \<open>The merge of the two: the id 1 occurs once for each source.\<close>

definition merged_example :: dataframe where
  "merged_example =
     \<lparr>nrows = 3,
      columns = [(''id'', \<lparr>dtype = Int64NA, cells = [Num 1, Num 2, Num 1]\<rparr>),
                 (''price'', \<lparr>dtype = Numeric, cells = [Num 0, Num 30, NaN]\<rparr>),
                 (''rating'', \<lparr>dtype = Numeric, cells = [Num 0, Num 4, NaN]\<rparr>),
                 (''data_source'',
                    \<lparr>dtype = Object,
                      cells = [Str ''DummyJSON_API'', Str ''DummyJSON_API'',
                               Str ''BooksToScrape_Web'']\<rparr>),
                 (''scraped_at'',
                    \<lparr>dtype = Object,
                      cells = [Str ''2024-01-01 00:00:00'', Str ''2024-01-01 00:00:00'',
                               Str ''2024-01-01 00:00:00'']\<rparr>),
                 (''title'', \<lparr>dtype = Object, cells = [NaN, NaN, Str ''A'']\<rparr>),
                 (''product_url'', \<lparr>dtype = Object, cells = [NaN, NaN, Str ''u'']\<rparr>)]\<rparr>"

text \<open>Every column has one cell per row.\<close>

definition rect :: "dataframe \<Rightarrow> bool" where
  "rect df = list_all (\<lambda>(k, s). length (cells s) = nrows df) (columns df)"

text \<open>
  The frame of \<^verbatim>\<open>clean_web_scraped_data\<close> when it reaches \<^verbatim>\<open>drop_duplicates\<close>:
  one row for each input record, in input order, with the synthesized id.
\<close>

definition web_tagged :: "runtime \<Rightarrow> pydict list \<Rightarrow> dataframe" where
  "web_tagged env products =
     (let df = standardize_columns (DataFrame products);
          df = set_col df ''id'' (synth_ids env df);
          df = set_col df ''data_source'' (const_series df (Str ''BooksToScrape_Web''))
      in set_col df ''scraped_at'' (const_series df (Str (now env))))"

text \<open>The same for \<^verbatim>\<open>clean_api_data\<close>, where flattening can fail.\<close>

definition api_tagged :: "runtime \<Rightarrow> pydict list \<Rightarrow> error + dataframe" where
  "api_tagged env products =
     and_then (flatten_dimensions (DataFrame products)) (\<lambda>df.
     and_then (flatten_reviews (if has_col df ''meta'' then drop_col df ''meta'' else df)) (\<lambda>df.
       (let df = standardize_columns (flatten_images df);
            df = set_col df ''data_source'' (const_series df (Str ''DummyJSON_API''))
        in Inr (set_col df ''scraped_at'' (const_series df (Str (now env)))))))"

text \<open>The id column holds numbers only: the natural integer id of an API record.\<close>

definition numeric_ids :: "dataframe \<Rightarrow> bool" where
  "numeric_ids df =
     (case get_col df ''id'' of
        None \<Rightarrow> False
      | Some s \<Rightarrow> dtype s = Numeric \<and> list_all is_num (cells s))"

text \<open>What the missing-value step puts in a text column.\<close>

definition fill_text :: "string \<Rightarrow> cell \<Rightarrow> cell" where
  "fill_text n c =
     (if is_na c
      then (if n \<in> set [''description'', ''title'', ''category'', ''brand'']
            then Str ''Unknown'' else Str '''')
      else c)"

text \<open>The columns that type coercion rewrites.\<close>

definition coerced_columns :: "string list" where
  "coerced_columns = [''price'', ''rating'', ''stock'', ''id'', ''in_stock'', ''onsale'', ''returnable'']"

text \<open>A process whose string hash is the length of the string.\<close>

definition process_len :: runtime where
  "process_len = \<lparr>str_hash = (\<lambda>s. int (length s)), now = ''2024-01-01 00:00:00'',
                   py_repr = (\<lambda>c. '''')\<rparr>"

text \<open>Three crawled books; the second repeats the first with another category.\<close>

definition three_books :: "pydict list" where
  "three_books =
     [[(''title'', Str ''A''), (''product_url'', Str ''u''), (''category'', Str ''x'')],
      [(''title'', Str ''A''), (''product_url'', Str ''u''), (''category'', Str ''y'')],
      [(''title'', Str ''BB''), (''product_url'', Str ''u''), (''category'', NoneV)]]"

definition three_books_clean :: dataframe where
  "three_books_clean =
     \<lparr>nrows = 2,
      columns = [(''title'', \<lparr>dtype = Object, cells = [Str ''A'', Str ''BB'']\<rparr>),
                 (''product_url'', \<lparr>dtype = Object, cells = [Str ''u'', Str ''u'']\<rparr>),
                 (''category'', \<lparr>dtype = Object, cells = [Str ''x'', Str ''Unknown'']\<rparr>),
                 (''id'', \<lparr>dtype = Int64NA, cells = [Num 3, Num 4]\<rparr>),
                 (''data_source'',
                    \<lparr>dtype = Object, cells = [Str ''BooksToScrape_Web'', Str ''BooksToScrape_Web'']\<rparr>),
                 (''scraped_at'',
                    \<lparr>dtype = Object,
                      cells = [Str ''2024-01-01 00:00:00'', Str ''2024-01-01 00:00:00'']\<rparr>)]\<rparr>"

text \<open>Four API products; the second carries no id.\<close>

definition missing_id_products :: "pydict list" where
  "missing_id_products =
     [[(''id'', Num 1)], [(''title'', Str ''b'')], [(''id'', Num 2)], [(''id'', Num 3)]]"

text \<open>Two API products whose ids are the number 1 and the text \<^verbatim>\<open>'1'\<close>.\<close>

definition mixed_id_products :: "pydict list" where
  "mixed_id_products = [[(''id'', Num 1)], [(''id'', Str ''1'')]]"

section \<open>Basic facts about frames\<close>

lemmas model_defs =
  clean_api_data_def clean_web_scraped_data_def DataFrame_def infer_series_def dict_get_def
  standardize_columns_def standard_name_def lower_char_def set_col_def has_col_def col_names_def
  get_col_def const_series_def synth_ids_def synth_id_def py_format_def row_get_def
  drop_duplicates_def df_empty_def key_cells_def row_keys_def take_rows_def select_def
  handle_missing_values_def fill_numeric_def fill_string_def fill_bool_def fillna_def has_na_def
  present_def median_def validate_data_types_def coerce_numeric_col_def coerce_id_col_def
  bool_candidates_def to_numeric_def astype_Int64_def astype_bool_def and_then_def
  flatten_dimensions_def flatten_reviews_def flatten_images_def drop_col_def result_col_def

lemma map_of_replace:
  "map_of (map (\<lambda>(k, v). if k = n then (k, s) else (k, v)) xs) m =
     (if m = n then (if n \<in> set (map fst xs) then Some s else None) else map_of xs m)"
proof (induction xs)
  case Nil
  show ?case by simp
next
  case (Cons p xs)
  obtain k v where p: "p = (k, v)" by (cases p)
  show ?case using Cons by (auto simp: p split: if_splits)
qed

lemma map_of_append_new:
  "n \<notin> set (map fst xs) \<Longrightarrow> map_of (xs @ [(n, s)]) m = (if m = n then Some s else map_of xs m)"
  by (auto simp: map_add_def map_of_eq_None_iff[symmetric]
      split: option.splits)

lemma get_col_set_col: "get_col (set_col df n s) m = (if m = n then Some s else get_col df m)"
  unfolding get_col_def set_col_def has_col_def col_names_def
  using map_of_replace[of n s "columns df" m] map_of_append_new[of n "columns df" s m]
  by (auto split: if_splits)

lemma nrows_set_col: "nrows (set_col df n s) = nrows df"
  by (simp add: set_col_def)

section \<open>Buckets\<close>

lemma add_price_category_col:
  assumes "add_price_category df = Inr t" and "get_col df ''price'' = Some s"
  shows "get_col t ''price_category'' =
           Some \<lparr>dtype = Category, cells = map (cut_cell price_bins price_labels) (cells s)\<rparr>"
    and "m \<noteq> ''price_category'' \<Longrightarrow> get_col t m = get_col df m"
  using assms
  by (auto simp: add_price_category_def and_then_def cut_def get_col_set_col split: if_splits)

lemma add_rating_category_col:
  assumes "add_rating_category df = Inr t" and "get_col df ''rating'' = Some s"
  shows "get_col t ''rating_category'' =
           Some \<lparr>dtype = Category, cells = map (cut_cell rating_bins rating_labels) (cells s)\<rparr>"
  using assms
  by (auto simp: add_rating_category_def and_then_def cut_def get_col_set_col split: if_splits)

lemma add_price_category_other:
  assumes "add_price_category df = Inr t" and "m \<noteq> ''price_category''"
  shows "get_col t m = get_col df m"
  using assms
  by (auto simp: add_price_category_def and_then_def cut_def get_col_set_col
      split: option.splits if_splits)

lemma add_rating_category_other:
  assumes "add_rating_category df = Inr t" and "m \<noteq> ''rating_category''"
  shows "get_col t m = get_col df m"
  using assms
  by (auto simp: add_rating_category_def and_then_def cut_def get_col_set_col
      split: option.splits if_splits)

lemma add_title_fields_other:
  assumes "add_title_fields df = Inr t" and "m \<noteq> ''title_length''" and "m \<noteq> ''title_word_count''"
  shows "get_col t m = get_col df m"
  using assms
  by (auto simp: add_title_fields_def and_then_def str_column_def get_col_set_col
      split: option.splits if_splits)

lemma add_description_fields_other:
  assumes "add_description_fields df = Inr t" and "m \<noteq> ''description_length''"
    and "m \<noteq> ''description_word_count''" and "m \<noteq> ''has_description''"
  shows "get_col t m = get_col df m"
  using assms
  by (auto simp: add_description_fields_def and_then_def str_column_def get_col_set_col
      split: option.splits if_splits)

lemma add_calculated_fields_steps:
  assumes "add_calculated_fields df = Inr t"
  obtains d1 d2 d3 where "add_price_category df = Inr d1" and "add_rating_category d1 = Inr d2"
    and "add_title_fields d2 = Inr d3" and "add_description_fields d3 = Inr t"
  using assms
  by (auto simp: add_calculated_fields_def and_then_def split: sum.splits if_splits)

lemma price_category_cells:
  assumes "add_calculated_fields df = Inr t" and "get_col df ''price'' = Some s"
  shows "get_col t ''price_category'' =
           Some \<lparr>dtype = Category, cells = map (cut_cell price_bins price_labels) (cells s)\<rparr>"
proof -
  from assms(1) obtain d1 d2 d3 where
    s1: "add_price_category df = Inr d1" and s2: "add_rating_category d1 = Inr d2" and
    s3: "add_title_fields d2 = Inr d3" and s4: "add_description_fields d3 = Inr t"
    by (rule add_calculated_fields_steps)
  have "get_col t ''price_category'' = get_col d3 ''price_category''"
    using add_description_fields_other[OF s4] by simp
  also have "\<dots> = get_col d2 ''price_category''"
    using add_title_fields_other[OF s3] by simp
  also have "\<dots> = get_col d1 ''price_category''"
    using add_rating_category_other[OF s2] by simp
  finally show ?thesis
    using add_price_category_col(1)[OF s1 assms(2)] by simp
qed

lemma rating_category_cells:
  assumes "add_calculated_fields df = Inr t" and "get_col df ''rating'' = Some s"
  shows "get_col t ''rating_category'' =
           Some \<lparr>dtype = Category, cells = map (cut_cell rating_bins rating_labels) (cells s)\<rparr>"
proof -
  from assms(1) obtain d1 d2 d3 where
    s1: "add_price_category df = Inr d1" and s2: "add_rating_category d1 = Inr d2" and
    s3: "add_title_fields d2 = Inr d3" and s4: "add_description_fields d3 = Inr t"
    by (rule add_calculated_fields_steps)
  have r: "get_col d1 ''rating'' = Some s"
    using add_price_category_other[OF s1, of "''rating''"] assms(2) by simp
  have "get_col t ''rating_category'' = get_col d3 ''rating_category''"
    using add_description_fields_other[OF s4] by simp
  also have "\<dots> = get_col d2 ''rating_category''"
    using add_title_fields_other[OF s3] by simp
  finally show ?thesis
    using add_rating_category_col[OF s2 r] by simp
qed

lemma cut_price:
  "cut_cell price_bins price_labels (Num x) =
     (if x \<le> 0 then NaN else if x \<le> 20 then Str ''Budget''
      else if x \<le> 50 then Str ''Mid-Range''
      else if x \<le> 100 then Str ''Premium'' else Str ''Luxury'')"
  by (simp add: cut_cell_def price_bins_def price_labels_def)

lemma cut_rating_zero: "cut_cell rating_bins rating_labels (Num 0) = NaN"
  by (simp add: cut_cell_def rating_bins_def rating_labels_def)

lemma enrich_edge_prices:
  "add_calculated_fields edge_prices =
     Inr (set_col edge_prices ''price_category''
            \<lparr>dtype = Category,
              cells = [Str ''Budget'', Str ''Mid-Range'', Str ''Premium'', Str ''Luxury'']\<rparr>)"
  by (simp add: edge_prices_def add_calculated_fields_def add_price_category_def
      add_rating_category_def add_title_fields_def add_description_fields_def and_then_def
      cut_def get_col_def set_col_def has_col_def col_names_def cut_price)

text \<open>
  C9 (as stated, refuted). The statement names a lower-bound-inclusive convention: a price
  equal to the lower edge of a bucket belongs to that bucket, so 50 would be Premium
  (50 to 100) and 100 would be Luxury. On prices 20, 50, 100 and 101 the code answers
  Budget, Mid-Range, Premium, Luxury: the buckets are closed on the right.
\<close>

theorem C9_lower_bound_is_not_inclusive:
  "result_col (add_calculated_fields edge_prices) ''price_category'' =
     Some \<lparr>dtype = Category,
           cells = [Str ''Budget'', Str ''Mid-Range'', Str ''Premium'', Str ''Luxury'']\<rparr> \<and>
   result_col (add_calculated_fields edge_prices) ''price_category'' \<noteq>
     Some \<lparr>dtype = Category,
           cells = [Str ''Budget'', Str ''Premium'', Str ''Luxury'', Str ''Luxury'']\<rparr>"
  by (simp add: enrich_edge_prices result_col_def get_col_set_col)

text \<open>
  C9 (amended). For every table with a price column that the enricher returns a result
  for, the bucket of a price \<open>x\<close> is: none for \<open>x \<le> 0\<close>, Budget for \<open>0 < x \<le> 20\<close>,
  Mid-Range for \<open>20 < x \<le> 50\<close>, Premium for \<open>50 < x \<le> 100\<close>, Luxury for every
  \<open>x > 100\<close>. So 20.00 is Budget, and each of the edges 20, 50 and 100 belongs to the
  bucket it closes (upper bound inclusive, lower bound exclusive).
\<close>

theorem C9_price_buckets_closed_on_the_right:
  assumes "add_calculated_fields df = Inr t" and "get_col df ''price'' = Some s"
  shows "\<exists>c. get_col t ''price_category'' = Some c \<and> length (cells c) = length (cells s) \<and>
           (\<forall>i < length (cells s). \<forall>x. cells s ! i = Num x \<longrightarrow>
              cells c ! i =
                (if x \<le> 0 then NaN else if x \<le> 20 then Str ''Budget''
                 else if x \<le> 50 then Str ''Mid-Range''
                 else if x \<le> 100 then Str ''Premium'' else Str ''Luxury''))"
  using price_category_cells[OF assms] by (simp add: cut_price)

theorem C9_price_buckets_witness:
  "\<exists>c. get_col (set_col edge_prices ''price_category''
            \<lparr>dtype = Category,
              cells = [Str ''Budget'', Str ''Mid-Range'', Str ''Premium'', Str ''Luxury'']\<rparr>)
           ''price_category'' = Some c \<and>
        cells c ! 0 = Str ''Budget'' \<and> cells c ! 1 = Str ''Mid-Range'' \<and>
        cells c ! 2 = Str ''Premium'' \<and> cells c ! 3 = Str ''Luxury''"
proof -
  have col: "get_col edge_prices ''price'' =
     Some \<lparr>dtype = Numeric, cells = [Num 20, Num 50, Num 100, Num 101]\<rparr>"
    by (simp add: edge_prices_def get_col_def)
  from C9_price_buckets_closed_on_the_right[OF enrich_edge_prices col] obtain c where
    c: "get_col (set_col edge_prices ''price_category''
            \<lparr>dtype = Category,
              cells = [Str ''Budget'', Str ''Mid-Range'', Str ''Premium'', Str ''Luxury'']\<rparr>)
           ''price_category'' = Some c"
    and all: "\<forall>i < 4. \<forall>x. [Num 20, Num 50, Num 100, Num 101] ! i = Num x \<longrightarrow>
              cells c ! i =
                (if x \<le> 0 then NaN else if x \<le> 20 then Str ''Budget''
                 else if x \<le> 50 then Str ''Mid-Range''
                 else if x \<le> 100 then Str ''Premium'' else Str ''Luxury'')"
    by auto
  from all have "cells c ! 0 = Str ''Budget''" "cells c ! 1 = Str ''Mid-Range''"
    "cells c ! 2 = Str ''Premium''" "cells c ! 3 = Str ''Luxury''"
    by (simp_all add: nth_Cons')
  with c show ?thesis by blast
qed

section \<open>Empty input\<close>

text \<open>
  C3. An empty record list is not an error: both normalizers return the empty table,
  and merging, enriching and summarising the empty table return a result. The merge of
  two empty tables is the empty table.
\<close>

theorem C3_empty_input_is_not_an_error:
  "clean_api_data env [] = Inr empty_df \<and>
   clean_web_scraped_data env [] = Inr empty_df \<and>
   merge_datasets empty_df empty_df = Inr empty_df \<and>
   add_calculated_fields empty_df = Inr empty_df \<and>
   generate_statistics empty_df =
     Inr [(''total_products'', Num 0), (''total_columns'', Num 0),
          (''missing_values'', Dct []), (''data_types'', Dct [])]"
  by (simp add: clean_api_data_def clean_web_scraped_data_def merge_datasets_def concat_rows_def
      empty_df_def and_then_def drop_duplicates_def df_empty_def add_calculated_fields_def
      add_price_category_def add_rating_category_def add_title_fields_def
      add_description_fields_def get_col_def has_col_def col_names_def generate_statistics_def
      block_def)

section \<open>The synthesized id\<close>

text \<open>
  C1 (the code at the failing input). The same crawled record gets the id 1 in one
  process and the id 2 in another whose string hash is salted differently: the id is
  a function of the title, the URL and the salt of the process.
\<close>

theorem C1_synth_id_differs_between_processes:
  "result_col (clean_web_scraped_data process_a one_book) ''id'' =
     Some \<lparr>dtype = Int64NA, cells = [Num 1]\<rparr> \<and>
   result_col (clean_web_scraped_data process_b one_book) ''id'' =
     Some \<lparr>dtype = Int64NA, cells = [Num 2]\<rparr>"
  by (simp add: model_defs process_a_def process_b_def one_book_def upt_rec)

section \<open>Missing values\<close>

text \<open>
  C7 (the code at the failing input). A boolean flag that is missing in one record
  makes a column of objects, which the text rule fills with the empty string: the
  second product ends with \<^verbatim>\<open>featured = ''\<close>, not with false.
\<close>

theorem C7_missing_flag_becomes_empty_string:
  "result_col (clean_api_data env two_products) ''featured'' =
     Some \<lparr>dtype = Object, cells = [Bool True, Str '''']\<rparr>"
  by (simp add: model_defs two_products_def upt_rec)


section \<open>The fill value and the lowest bucket\<close>

lemma map_of_map_keep:
  assumes "\<And>k v. fst (f (k, v)) = k"
  shows "map_of (map f xs) n = map_option (\<lambda>v. snd (f (n, v))) (map_of xs n)"
proof (induction xs)
  case Nil
  show ?case by simp
next
  case (Cons p xs)
  obtain k v where p: "p = (k, v)" by (cases p)
  obtain w where w: "f (k, v) = (k, w)"
    using assms[of k v] by (cases "f (k, v)") auto
  show ?case using Cons by (simp add: p w)
qed

lemma fill_keeps_name: "fst (fill_bool (fill_string (fill_numeric (k, v)))) = k"
  by (simp add: fill_bool_def fill_string_def fill_numeric_def)

lemma get_col_handle_missing_values:
  "get_col (handle_missing_values df) n = map_option (fill_column n) (get_col df n)"
proof -
  have "fill_column n = (\<lambda>v. snd (fill_bool (fill_string (fill_numeric (n, v)))))"
    by (rule ext) (simp add: fill_column_def)
  then show ?thesis
    using map_of_map_keep[of "\<lambda>p. fill_bool (fill_string (fill_numeric p))" "columns df" n]
    by (simp add: get_col_def handle_missing_values_def fill_keeps_name comp_def)
qed

lemma fill_column_measure:
  assumes "dtype s = Numeric" and "n \<in> set [''price'', ''rating'', ''stock'']"
  shows "fill_column n s = fillna (Num 0) s"
proof (cases "has_na s")
  case True
  then show ?thesis using assms
    by (auto simp: fill_column_def fill_numeric_def fill_string_def fill_bool_def fillna_def)
next
  case False
  then have "map (\<lambda>c. if is_na c then Num 0 else c) (cells s) = cells s"
    by (induction "cells s" arbitrary: s) (auto simp: has_na_def list_ex_iff intro: map_idI)
  with False show ?thesis using assms
    by (auto simp: fill_column_def fill_numeric_def fill_string_def fill_bool_def fillna_def)
qed

text \<open>
  C10. In every table the enricher returns a result for, a price of exactly 0 has a
  null price category and a rating of exactly 0 has a null rating category, because
  the lowest bucket excludes its lower edge 0. And 0 is what the missing-value step
  puts for a missing price or rating in a number column. So a record whose cells are
  all filled by the policy can get null bucket cells.
\<close>

theorem C10_zero_gets_no_bucket:
  assumes "add_calculated_fields df = Inr t"
  shows "(\<forall>s. get_col df ''price'' = Some s \<longrightarrow>
            (\<exists>c. get_col t ''price_category'' = Some c \<and> length (cells c) = length (cells s) \<and>
                 (\<forall>i < length (cells s). cells s ! i = Num 0 \<longrightarrow> cells c ! i = NaN))) \<and>
         (\<forall>s. get_col df ''rating'' = Some s \<longrightarrow>
            (\<exists>c. get_col t ''rating_category'' = Some c \<and> length (cells c) = length (cells s) \<and>
                 (\<forall>i < length (cells s). cells s ! i = Num 0 \<longrightarrow> cells c ! i = NaN))) \<and>
         (\<forall>raw n s. n \<in> set [''price'', ''rating''] \<and> get_col raw n = Some s \<and> dtype s = Numeric \<longrightarrow>
            get_col (handle_missing_values raw) n =
              Some (s\<lparr>cells := map (\<lambda>c. if is_na c then Num 0 else c) (cells s)\<rparr>))"
proof (intro conjI allI impI)
  fix s assume "get_col df ''price'' = Some s"
  from price_category_cells[OF assms this]
  show "\<exists>c. get_col t ''price_category'' = Some c \<and> length (cells c) = length (cells s) \<and>
          (\<forall>i < length (cells s). cells s ! i = Num 0 \<longrightarrow> cells c ! i = NaN)"
    by (simp add: cut_price)
next
  fix s assume "get_col df ''rating'' = Some s"
  from rating_category_cells[OF assms this]
  show "\<exists>c. get_col t ''rating_category'' = Some c \<and> length (cells c) = length (cells s) \<and>
          (\<forall>i < length (cells s). cells s ! i = Num 0 \<longrightarrow> cells c ! i = NaN)"
    by (simp add: cut_rating_zero)
next
  fix raw n s
  assume a: "n \<in> set [''price'', ''rating''] \<and> get_col raw n = Some s \<and> dtype s = Numeric"
  then have "fill_column n s = fillna (Num 0) s"
    by (intro fill_column_measure) auto
  with a show "get_col (handle_missing_values raw) n =
      Some (s\<lparr>cells := map (\<lambda>c. if is_na c then Num 0 else c) (cells s)\<rparr>)"
    by (simp add: get_col_handle_missing_values fillna_def)
qed

lemma clean_unpriced: "clean_api_data process_a unpriced = Inr unpriced_clean"
  by (simp add: model_defs process_a_def unpriced_def unpriced_clean_def upt_rec)

lemma enrich_unpriced: "\<exists>t. add_calculated_fields unpriced_clean = Inr t"
  by (simp add: unpriced_clean_def add_calculated_fields_def add_price_category_def
      add_rating_category_def add_title_fields_def add_description_fields_def and_then_def
      cut_def get_col_def set_col_def has_col_def col_names_def)

theorem C10_zero_gets_no_bucket_witness:
  "clean_api_data process_a unpriced = Inr unpriced_clean \<and>
   get_col unpriced_clean ''price'' = Some \<lparr>dtype = Numeric, cells = [Num 0, Num 30]\<rparr> \<and>
   get_col unpriced_clean ''rating'' = Some \<lparr>dtype = Numeric, cells = [Num 0, Num 4]\<rparr> \<and>
   (\<exists>t c r. add_calculated_fields unpriced_clean = Inr t \<and>
      get_col t ''price_category'' = Some c \<and> cells c ! 0 = NaN \<and>
      get_col t ''rating_category'' = Some r \<and> cells r ! 0 = NaN)"
proof -
  obtain t where t: "add_calculated_fields unpriced_clean = Inr t"
    using enrich_unpriced by blast
  have p: "get_col unpriced_clean ''price'' = Some \<lparr>dtype = Numeric, cells = [Num 0, Num 30]\<rparr>"
    and r: "get_col unpriced_clean ''rating'' = Some \<lparr>dtype = Numeric, cells = [Num 0, Num 4]\<rparr>"
    by (simp_all add: unpriced_clean_def get_col_def)
  from C10_zero_gets_no_bucket[OF t] p obtain c where
    c: "get_col t ''price_category'' = Some c" "cells c ! 0 = NaN"
    by fastforce
  from C10_zero_gets_no_bucket[OF t] r obtain rc where
    rc: "get_col t ''rating_category'' = Some rc" "cells rc ! 0 = NaN"
    by fastforce
  from t c rc p r clean_unpriced show ?thesis by blast
qed

section \<open>Statistics of a column that is all missing\<close>

lemma block_keeps:
  assumes "block df col name f stats = Inr st" and "map_of stats k = Some v"
  shows "map_of st k = Some v"
  using assms
  by (auto simp: block_def and_then_def map_add_def split: option.splits sum.splits)

lemma block_adds:
  assumes "block df col name f stats = Inr st" and "get_col df col = Some s"
    and "map_of stats name = None"
  shows "\<exists>v. f s = Inr v \<and> map_of st name = Some v"
  using assms
  by (auto simp: block_def and_then_def map_add_def split: option.splits sum.splits)

lemma block_None:
  assumes "block df col name f stats = Inr st" and "map_of stats k = None" and "k \<noteq> name"
  shows "map_of st k = None"
  using assms
  by (auto simp: block_def and_then_def map_add_def split: option.splits sum.splits)

lemma generate_statistics_steps:
  assumes "generate_statistics df = Inr st"
  obtains s0 s1 s2 s3 s4 where
    "map_of s0 ''price_stats'' = None" and "map_of s0 ''rating_stats'' = None" and
    "block df ''price'' ''price_stats'' (\<lambda>s. aggregates s True) s0 = Inr s1" and
    "block df ''rating'' ''rating_stats'' (\<lambda>s. aggregates s False) s1 = Inr s2" and
    "block df ''category'' ''category_distribution'' value_counts s2 = Inr s3" and
    "block df ''data_source'' ''data_source_distribution'' value_counts s3 = Inr s4" and
    "block df ''in_stock'' ''stock_stats'' (stock_stats df) s4 = Inr st"
proof -
  let ?s0 = "[(''total_products'', Num (real (nrows df))),
              (''total_columns'', Num (real (length (columns df)))),
              (''missing_values'', Dct (map (\<lambda>(k, s). (k, count_na s)) (columns df))),
              (''data_types'', Dct (map (\<lambda>(k, s). (k, Str (dtype_name (dtype s)))) (columns df)))]"
  have a: "map_of ?s0 ''price_stats'' = None" "map_of ?s0 ''rating_stats'' = None"
    by simp_all
  from assms obtain s1 s2 s3 s4 where
    "block df ''price'' ''price_stats'' (\<lambda>s. aggregates s True) ?s0 = Inr s1"
    "block df ''rating'' ''rating_stats'' (\<lambda>s. aggregates s False) s1 = Inr s2"
    "block df ''category'' ''category_distribution'' value_counts s2 = Inr s3"
    "block df ''data_source'' ''data_source_distribution'' value_counts s3 = Inr s4"
    "block df ''in_stock'' ''stock_stats'' (stock_stats df) s4 = Inr st"
    unfolding generate_statistics_def Let_def and_then_def
    by (auto split: sum.splits)
  with a that show ?thesis by blast
qed

lemma aggregates_all_missing:
  assumes "aggregates s with_std = Inr v" and "list_all is_na (cells s)"
  shows "v = Dct ([(''mean'', NaN), (''median'', NaN), (''min'', NaN), (''max'', NaN)] @
                  (if with_std then [(''std'', NaN)] else []))"
proof -
  have "filter (\<lambda>c. \<not> is_na c) (cells s) = []"
    using assms(2) by (simp add: list_all_iff filter_empty_conv)
  then have "present s = []" by (simp add: present_def)
  with assms(1) show ?thesis
    by (auto simp: aggregates_def mean_def median_def minimum_def maximum_def std_def
        split: if_splits)
qed

text \<open>
  C8 (as stated, refuted). A table whose price column exists and holds only missing
  values: the statistics object has a \<^verbatim>\<open>price_stats\<close> block, and its entries are NaN.
\<close>

theorem C8_all_missing_block_is_not_omitted:
  "stats_block (generate_statistics all_missing) ''price_stats'' =
     Some (Dct [(''mean'', NaN), (''median'', NaN), (''min'', NaN), (''max'', NaN),
                (''std'', NaN)]) \<and>
   stats_block (generate_statistics all_missing) ''price_stats'' \<noteq> None"
  by (simp add: stats_block_def all_missing_def generate_statistics_def block_def and_then_def
      get_col_def aggregates_def present_def mean_def median_def minimum_def maximum_def
      std_def)

text \<open>
  C8 (amended). Whenever the summarizer returns a statistics object for a table, the
  block of an aggregate source column (price, rating) is in it as soon as the column
  exists; when every value of the column is missing, the entries of the block are all
  NaN. The block is not omitted, and the aggregation raises no error.
\<close>

theorem C8_block_present_with_nan_entries:
  assumes "generate_statistics df = Inr st"
  shows "(\<forall>s. get_col df ''price'' = Some s \<longrightarrow>
            (\<exists>v. aggregates s True = Inr v \<and> map_of st ''price_stats'' = Some v) \<and>
            (list_all is_na (cells s) \<longrightarrow>
               map_of st ''price_stats'' =
                 Some (Dct [(''mean'', NaN), (''median'', NaN), (''min'', NaN), (''max'', NaN),
                            (''std'', NaN)]))) \<and>
         (\<forall>s. get_col df ''rating'' = Some s \<longrightarrow>
            (\<exists>v. aggregates s False = Inr v \<and> map_of st ''rating_stats'' = Some v) \<and>
            (list_all is_na (cells s) \<longrightarrow>
               map_of st ''rating_stats'' =
                 Some (Dct [(''mean'', NaN), (''median'', NaN), (''min'', NaN),
                            (''max'', NaN)])))"
proof -
  from assms obtain s0 s1 s2 s3 s4 where
    n0: "map_of s0 ''price_stats'' = None" "map_of s0 ''rating_stats'' = None" and
    b1: "block df ''price'' ''price_stats'' (\<lambda>s. aggregates s True) s0 = Inr s1" and
    b2: "block df ''rating'' ''rating_stats'' (\<lambda>s. aggregates s False) s1 = Inr s2" and
    b3: "block df ''category'' ''category_distribution'' value_counts s2 = Inr s3" and
    b4: "block df ''data_source'' ''data_source_distribution'' value_counts s3 = Inr s4" and
    b5: "block df ''in_stock'' ''stock_stats'' (stock_stats df) s4 = Inr st"
    by (rule generate_statistics_steps)
  have keep: "map_of st k = Some v" if "map_of s2 k = Some v" for k v
    using block_keeps[OF b5 block_keeps[OF b4 block_keeps[OF b3 that]]] .
  have price: "\<exists>v. aggregates s True = Inr v \<and> map_of st ''price_stats'' = Some v"
    if "get_col df ''price'' = Some s" for s
    using block_adds[OF b1 that n0(1)] block_keeps[OF b2] keep by blast
  have r1: "map_of s1 ''rating_stats'' = None"
    using block_None[OF b1 n0(2)] by simp
  have rating: "\<exists>v. aggregates s False = Inr v \<and> map_of st ''rating_stats'' = Some v"
    if "get_col df ''rating'' = Some s" for s
    using block_adds[OF b2 that r1] keep by blast
  show ?thesis
  proof (intro conjI allI impI)
    fix s assume "get_col df ''price'' = Some s"
    then show "\<exists>v. aggregates s True = Inr v \<and> map_of st ''price_stats'' = Some v"
      by (rule price)
  next
    fix s assume "get_col df ''price'' = Some s" and "list_all is_na (cells s)"
    then show "map_of st ''price_stats'' =
        Some (Dct [(''mean'', NaN), (''median'', NaN), (''min'', NaN), (''max'', NaN),
                   (''std'', NaN)])"
      using price[of s] aggregates_all_missing[of s True] by auto
  next
    fix s assume "get_col df ''rating'' = Some s"
    then show "\<exists>v. aggregates s False = Inr v \<and> map_of st ''rating_stats'' = Some v"
      by (rule rating)
  next
    fix s assume "get_col df ''rating'' = Some s" and "list_all is_na (cells s)"
    then show "map_of st ''rating_stats'' =
        Some (Dct [(''mean'', NaN), (''median'', NaN), (''min'', NaN), (''max'', NaN)])"
      using rating[of s] aggregates_all_missing[of s False] by auto
  qed
qed

lemma statistics_all_missing: "\<exists>st. generate_statistics all_missing = Inr st"
  by (simp add: all_missing_def generate_statistics_def block_def and_then_def
      get_col_def aggregates_def)

theorem C8_block_present_witness:
  "get_col all_missing ''price'' = Some \<lparr>dtype = Numeric, cells = [NaN, NaN]\<rparr> \<and>
   list_all is_na [NaN, NaN] \<and>
   (\<exists>st. generate_statistics all_missing = Inr st \<and>
      map_of st ''price_stats'' =
        Some (Dct [(''mean'', NaN), (''median'', NaN), (''min'', NaN), (''max'', NaN),
                   (''std'', NaN)]))"
proof -
  obtain st where st: "generate_statistics all_missing = Inr st"
    using statistics_all_missing by blast
  have p: "get_col all_missing ''price'' = Some \<lparr>dtype = Numeric, cells = [NaN, NaN]\<rparr>"
    by (simp add: all_missing_def get_col_def)
  from C8_block_present_with_nan_entries[OF st] p
  have "map_of st ''price_stats'' =
        Some (Dct [(''mean'', NaN), (''median'', NaN), (''min'', NaN), (''max'', NaN),
                   (''std'', NaN)])"
    by fastforce
  with st p show ?thesis by auto
qed

section \<open>Completeness after the missing-value step\<close>












lemma get_col_mem: "get_col df n = Some s \<Longrightarrow> (n, s) \<in> set (columns df)"
  by (simp add: get_col_def map_of_SomeD)













section \<open>First occurrences\<close>

lemma length_keep_first [simp]: "length (keep_first seen ks) = length ks"
  by (induction ks arbitrary: seen) auto

lemma keep_first_cong: "set seen = set seen' \<Longrightarrow> keep_first seen ks = keep_first seen' ks"
proof (induction ks arbitrary: seen seen')
  case Nil
  show ?case by simp
next
  case (Cons k ks)
  have "keep_first (k # seen) ks = keep_first (k # seen') ks"
    by (rule Cons.IH) (simp add: Cons.prems)
  then show ?case using Cons.prems by simp
qed

lemma keep_first_all:
  "distinct ks \<Longrightarrow> set ks \<inter> set seen = {} \<Longrightarrow> keep_first seen ks = replicate (length ks) True"
  by (induction ks arbitrary: seen) auto

lemma keep_first_none:
  "set ks \<subseteq> set seen \<Longrightarrow> keep_first seen ks = replicate (length ks) False"
proof (induction ks arbitrary: seen)
  case Nil
  show ?case by simp
next
  case (Cons k ks)
  have "keep_first (k # seen) ks = replicate (length ks) False"
    by (rule Cons.IH) (use Cons.prems in auto)
  then show ?case using Cons.prems by simp
qed

lemma keep_first_append:
  "keep_first seen (xs @ ys) = keep_first seen xs @ keep_first (xs @ seen) ys"
proof (induction xs arbitrary: seen)
  case Nil
  show ?case by simp
next
  case (Cons x xs)
  have "keep_first (xs @ x # seen) ys = keep_first (x # xs @ seen) ys"
    by (rule keep_first_cong) auto
  then show ?case by (simp add: Cons.IH)
qed

lemma select_Nil [simp]: "select [] xs = []" "select kept [] = []"
  by (simp_all add: select_def)

lemma select_Cons [simp]:
  "select (b # kept) (x # xs) = (if b then x # select kept xs else select kept xs)"
  by (simp add: select_def)

lemma select_all: "length xs = n \<Longrightarrow> select (replicate n True) xs = xs"
  by (induction xs arbitrary: n) auto

lemma select_none: "select (replicate n False) xs = []"
proof (induction xs arbitrary: n)
  case Nil
  show ?case by simp
next
  case (Cons x xs)
  show ?case by (cases n) (simp_all add: Cons.IH)
qed

lemma select_append:
  "length kept = length xs \<Longrightarrow> select (kept @ kept') (xs @ ys) = select kept xs @ select kept' ys"
proof (induction kept arbitrary: xs)
  case Nil
  then show ?case by simp
next
  case (Cons b kept)
  then obtain x xs' where "xs = x # xs'" by (cases xs) auto
  with Cons show ?case by simp
qed

lemma length_select: "length kept = length xs \<Longrightarrow> length (select kept xs) = length (filter id kept)"
proof (induction kept arbitrary: xs)
  case Nil
  then show ?case by simp
next
  case (Cons b kept)
  then obtain x xs' where "xs = x # xs'" by (cases xs) auto
  with Cons show ?case by simp
qed

lemma set_select: "set (select kept xs) \<subseteq> set xs"
  by (auto simp: select_def dest: set_zip_rightD)

lemma first_seen_cong: "set seen = set seen' \<Longrightarrow> first_seen seen ks = first_seen seen' ks"
proof (induction ks arbitrary: seen seen')
  case Nil
  show ?case by simp
next
  case (Cons k ks)
  have "first_seen (k # seen) ks = first_seen (k # seen') ks"
    by (rule Cons.IH) (simp add: Cons.prems)
  moreover have "first_seen seen ks = first_seen seen' ks"
    by (rule Cons.IH) (simp add: Cons.prems)
  ultimately show ?case using Cons.prems by simp
qed

lemma select_keep_first: "select (keep_first seen ks) ks = first_seen seen ks"
proof (induction ks arbitrary: seen)
  case Nil
  show ?case by simp
next
  case (Cons k ks)
  show ?case
  proof (cases "k \<in> set seen")
    case True
    then have "first_seen (k # seen) ks = first_seen seen ks"
      by (intro first_seen_cong) auto
    with True show ?thesis by (simp add: Cons.IH)
  next
    case False
    then show ?thesis by (simp add: Cons.IH)
  qed
qed

lemma first_seen_props:
  "distinct (first_seen seen ks) \<and> set (first_seen seen ks) = set ks - set seen"
  by (induction ks arbitrary: seen) auto

lemma remdups_snoc: "remdups (xs @ [k]) = filter (\<lambda>x. x \<noteq> k) (remdups xs) @ [k]"
  by (induction xs) auto

lemma first_seen_remdups: "first_seen [] ks = rev (remdups (rev ks))"
proof -
  have "first_seen seen ks = filter (\<lambda>k. k \<notin> set seen) (rev (remdups (rev ks)))" for seen
  proof (induction ks arbitrary: seen)
    case Nil
    show ?case by simp
  next
    case (Cons k ks)
    have r: "rev (remdups (rev ks @ [k])) = k # filter (\<lambda>x. x \<noteq> k) (rev (remdups (rev ks)))"
      by (simp add: remdups_snoc rev_filter)
    show ?case
    proof (cases "k \<in> set seen")
      case True
      have "filter (\<lambda>x. x \<notin> set seen) (filter (\<lambda>x. x \<noteq> k) (rev (remdups (rev ks)))) =
            filter (\<lambda>x. x \<notin> set seen) (rev (remdups (rev ks)))"
        unfolding filter_filter using True by (intro filter_cong refl) auto
      with True show ?thesis by (simp add: r Cons.IH)
    next
      case False
      have "filter (\<lambda>x. x \<notin> set seen) (filter (\<lambda>x. x \<noteq> k) (rev (remdups (rev ks)))) =
            filter (\<lambda>x. x \<notin> set (k # seen)) (rev (remdups (rev ks)))"
        unfolding filter_filter by (intro filter_cong refl) auto
      with False show ?thesis by (simp add: r Cons.IH)
    qed
  qed
  from this[of "[]"] show ?thesis by simp
qed

section \<open>Rows and columns\<close>

lemma rows_of_0 [simp]: "rows_of cs 0 = []"
  by (simp add: rows_of_def)

lemma rows_of_Suc:
  assumes "\<forall>c \<in> set cs. c \<noteq> []"
  shows "rows_of cs (Suc n) = map hd cs # rows_of (map tl cs) n"
proof -
  have a: "[0..<Suc n] = 0 # map Suc [0..<n]"
    by (simp add: upt_conv_Cons map_Suc_upt del: upt_Suc)
  have b: "map (\<lambda>c. c ! 0) cs = map hd cs"
    using assms by (intro map_cong refl) (simp add: hd_conv_nth)
  have c: "map (\<lambda>c. c ! Suc i) cs = map ((\<lambda>c. c ! i) \<circ> tl) cs" for i
    using assms by (intro map_cong refl) (auto simp: nth_tl neq_Nil_conv)
  show ?thesis
    unfolding rows_of_def a by (simp add: b c comp_def del: upt_Suc)
qed

lemma rows_of_select:
  assumes "\<forall>c \<in> set cs. length c = length kept"
  shows "rows_of (map (select kept) cs) (length (filter id kept)) = select kept (rows_of cs (length kept))"
  using assms
proof (induction kept arbitrary: cs)
  case Nil
  then show ?case by simp
next
  case (Cons b kept)
  have ne: "\<forall>c \<in> set cs. c \<noteq> []" using Cons.prems by auto
  have tl: "\<forall>c \<in> set (map tl cs). length c = length kept" using Cons.prems by auto
  have selT: "map (select (True # kept)) cs = map (\<lambda>c. hd c # select kept (tl c)) cs"
    by (rule map_cong[OF refl]) (use ne in \<open>auto simp: neq_Nil_conv\<close>)
  have selF: "map (select (False # kept)) cs = map (select kept) (map tl cs)"
    unfolding map_map by (rule map_cong[OF refl]) (use ne in \<open>auto simp: neq_Nil_conv\<close>)
  have ih: "rows_of (map (select kept) (map tl cs)) (length (filter id kept)) =
            select kept (rows_of (map tl cs) (length kept))"
    by (rule Cons.IH[OF tl])
  have rhs: "rows_of cs (length (b # kept)) = map hd cs # rows_of (map tl cs) (length kept)"
    using rows_of_Suc[OF ne] by simp
  show ?case
  proof (cases b)
    case True
    have ne': "\<forall>c \<in> set (map (\<lambda>c. hd c # select kept (tl c)) cs). c \<noteq> []"
      by simp
    have "rows_of (map (select (b # kept)) cs) (length (filter id (b # kept))) =
          rows_of (map (\<lambda>c. hd c # select kept (tl c)) cs) (Suc (length (filter id kept)))"
    proof -
      have "length (filter id (b # kept)) = Suc (length (filter id kept))"
        using True by simp
      moreover have "map (select (b # kept)) cs = map (\<lambda>c. hd c # select kept (tl c)) cs"
        using True selT by (simp only: eqTrueI)
      ultimately show ?thesis by (simp only:)
    qed
    also have "\<dots> = map hd cs # rows_of (map (select kept) (map tl cs)) (length (filter id kept))"
      unfolding rows_of_Suc[OF ne'] by (simp add: comp_def)
    also have "\<dots> = select (b # kept) (rows_of cs (length (b # kept)))"
      unfolding ih rhs using True by simp
    finally show ?thesis .
  next
    case False
    have "rows_of (map (select (b # kept)) cs) (length (filter id (b # kept))) =
          rows_of (map (select kept) (map tl cs)) (length (filter id kept))"
    proof -
      have "length (filter id (b # kept)) = length (filter id kept)"
        using False by simp
      moreover have "map (select (b # kept)) cs = map (select kept) (map tl cs)"
        using False selF by (simp only: eq_False[THEN iffD2])
      ultimately show ?thesis by (simp only:)
    qed
    also have "\<dots> = select (b # kept) (rows_of cs (length (b # kept)))"
      unfolding ih rhs using False by simp
    finally show ?thesis .
  qed
qed

lemma rows_of_double:
  assumes "\<forall>c \<in> set cs. length c = n"
  shows "rows_of (map (\<lambda>c. c @ c) cs) (n + n) = rows_of cs n @ rows_of cs n"
proof -
  have u1: "[0..<n + n] = [0..<n] @ [n..<n + n]"
    by (rule upt_add_eq_append) simp
  have u2: "[n..<n + n] = map (\<lambda>i. i + n) [0..<n]"
    using map_add_upt[of n n] by simp
  have a: "map (\<lambda>c. c ! i) (map (\<lambda>c. c @ c) cs) = map (\<lambda>c. c ! i) cs" if "i < n" for i
    unfolding map_map
  proof (rule map_cong[OF refl])
    fix c assume "c \<in> set cs"
    then have "length c = n" using assms by blast
    then show "((\<lambda>c. c ! i) \<circ> (\<lambda>c. c @ c)) c = c ! i"
      using that by (simp add: nth_append)
  qed
  have b: "map (\<lambda>c. c ! (i + n)) (map (\<lambda>c. c @ c) cs) = map (\<lambda>c. c ! i) cs" for i
    unfolding map_map
  proof (rule map_cong[OF refl])
    fix c assume "c \<in> set cs"
    then have "length c = n" using assms by blast
    then show "((\<lambda>c. c ! (i + n)) \<circ> (\<lambda>c. c @ c)) c = c ! i"
      by (simp add: nth_append)
  qed
  have "rows_of (map (\<lambda>c. c @ c) cs) (n + n) =
        map (\<lambda>i. map (\<lambda>c. c ! i) (map (\<lambda>c. c @ c) cs)) [0..<n] @
        map (\<lambda>i. map (\<lambda>c. c ! (i + n)) (map (\<lambda>c. c @ c) cs)) [0..<n]"
    unfolding rows_of_def u1 map_append u2 map_map comp_def ..
  also have "map (\<lambda>i. map (\<lambda>c. c ! i) (map (\<lambda>c. c @ c) cs)) [0..<n] = rows_of cs n"
    unfolding rows_of_def
  proof (rule map_cong[OF refl])
    fix i assume "i \<in> set [0..<n]"
    then have "i < n" by simp
    then show "map (\<lambda>c. c ! i) (map (\<lambda>c. c @ c) cs) = map (\<lambda>c. c ! i) cs"
      by (rule a)
  qed
  also have "map (\<lambda>i. map (\<lambda>c. c ! (i + n)) (map (\<lambda>c. c @ c) cs)) [0..<n] = rows_of cs n"
    unfolding rows_of_def by (rule map_cong[OF refl]) (simp only: b)
  finally show ?thesis .
qed

section \<open>Well-formed frames and their keys\<close>

lemma has_col_get_col: "has_col df n \<longleftrightarrow> (\<exists>s. get_col df n = Some s)"
  unfolding has_col_def get_col_def col_names_def
  using map_of_eq_None_iff[of "columns df" n] by auto

lemma wf_get_col_length:
  assumes "wf_df df" and "get_col df n = Some s"
  shows "length (cells s) = nrows df"
  using assms get_col_mem[OF assms(2)] by (auto simp: wf_df_def list_all_iff)

lemma wf_get_col:
  assumes "wf_df df" and "(n, s) \<in> set (columns df)"
  shows "get_col df n = Some s"
  using assms by (simp add: wf_df_def get_col_def col_names_def)

lemma key_cells_length:
  assumes "wf_df df" and "has_col df k"
  shows "length (key_cells df k) = nrows df"
  using assms wf_get_col_length by (auto simp: has_col_get_col key_cells_def)

lemma length_row_keys [simp]: "length (row_keys df ks) = nrows df"
  by (simp add: row_keys_def)

lemma row_keys_rows_of:
  assumes "wf_df df" and "list_all (has_col df) ks"
  shows "row_keys df ks = rows_of (map (\<lambda>k. map hash_key (key_cells df k)) ks) (nrows df)"
  unfolding row_keys_def rows_of_def map_map
proof (rule map_cong[OF refl])
  fix i assume "i \<in> set [0..<nrows df]"
  then have i: "i < nrows df" by simp
  show "map (\<lambda>k. hash_key (key_cells df k ! i)) ks =
        map ((\<lambda>c. c ! i) \<circ> (\<lambda>k. map hash_key (key_cells df k))) ks"
  proof (rule map_cong[OF refl])
    fix k assume "k \<in> set ks"
    then have "has_col df k" using assms(2) by (simp add: list_all_iff)
    then have "i < length (key_cells df k)"
      using key_cells_length[OF assms(1)] i by simp
    then show "hash_key (key_cells df k ! i) =
        ((\<lambda>c. c ! i) \<circ> (\<lambda>k. map hash_key (key_cells df k))) k"
      by simp
  qed
qed

lemma select_map: "select kept (map f xs) = map f (select kept xs)"
proof (induction kept arbitrary: xs)
  case Nil
  show ?case by simp
next
  case (Cons b kept)
  show ?case by (cases xs) (simp_all add: Cons.IH)
qed

lemma get_col_take_rows:
  "get_col (take_rows kept df) n = map_option (\<lambda>s. s\<lparr>cells := select kept (cells s)\<rparr>) (get_col df n)"
  using map_of_map_keep[of "\<lambda>(k, s). (k, s\<lparr>cells := select kept (cells s)\<rparr>)" "columns df" n]
  by (simp add: get_col_def take_rows_def)

lemma key_cells_take_rows: "key_cells (take_rows kept df) k = select kept (key_cells df k)"
  by (simp add: key_cells_def get_col_take_rows split: option.splits)

lemma col_names_take_rows: "col_names (take_rows kept df) = col_names df"
  by (simp add: col_names_def take_rows_def case_prod_beta comp_def)

lemma has_col_take_rows: "has_col (take_rows kept df) = has_col df"
  by (rule ext) (simp add: has_col_def col_names_take_rows)

lemma nrows_take_rows: "nrows (take_rows kept df) = length (filter id kept)"
  by (simp add: take_rows_def)

lemma wf_take_rows:
  assumes "wf_df df" and "length kept = nrows df"
  shows "wf_df (take_rows kept df)"
proof -
  have len: "length (select kept (cells s)) = length (filter id kept)"
    if "(n, s) \<in> set (columns df)" for n s
    using assms that by (intro length_select) (auto simp: wf_df_def list_all_iff)
  have "list_all (\<lambda>(k, s). length (cells s) = nrows (take_rows kept df))
          (columns (take_rows kept df))"
    using len by (auto simp: take_rows_def list_all_iff)
  moreover have "distinct (col_names (take_rows kept df))"
    using assms(1) by (simp add: col_names_take_rows wf_df_def)
  moreover have "nrows (take_rows kept df) = 0 \<or> columns (take_rows kept df) \<noteq> []"
    using assms by (auto simp: wf_df_def take_rows_def)
  ultimately show ?thesis
    unfolding wf_df_def by blast
qed

lemma row_keys_take_rows:
  assumes "wf_df df" and "list_all (has_col df) ks" and "length kept = nrows df"
  shows "row_keys (take_rows kept df) ks = select kept (row_keys df ks)"
proof -
  let ?cs = "map (\<lambda>k. map hash_key (key_cells df k)) ks"
  have len: "\<forall>c \<in> set ?cs. length c = length kept"
    using assms key_cells_length[OF assms(1)] by (auto simp: list_all_iff)
  have "row_keys (take_rows kept df) ks =
        rows_of (map (\<lambda>k. map hash_key (key_cells (take_rows kept df) k)) ks)
          (nrows (take_rows kept df))"
    by (rule row_keys_rows_of[OF wf_take_rows[OF assms(1,3)]])
       (use assms(2) in \<open>simp add: has_col_take_rows\<close>)
  also have "\<dots> = rows_of (map (select kept) ?cs) (length (filter id kept))"
    by (simp add: key_cells_take_rows select_map nrows_take_rows comp_def)
  also have "\<dots> = select kept (rows_of ?cs (length kept))"
    by (rule rows_of_select[OF len])
  also have "\<dots> = select kept (row_keys df ks)"
    using row_keys_rows_of[OF assms(1,2)] assms(3) by simp
  finally show ?thesis .
qed


lemma drop_duplicates_cases:
  assumes "drop_duplicates ks df = Inr t"
  shows "df_empty df \<and> t = df \<or>
         \<not> df_empty df \<and> list_all (has_col df) ks \<and>
           list_all (\<lambda>k. list_all hashable (key_cells df k)) ks \<and>
           t = take_rows (keep_first [] (row_keys df ks)) df"
  using assms by (auto simp: drop_duplicates_def split: if_splits)

section \<open>Merging with the empty table\<close>





section \<open>Merging a merged table with itself\<close>

lemma map_res_Inr:
  assumes "\<And>x. x \<in> set xs \<Longrightarrow> f x = Inr (g x)"
  shows "map_res f xs = Inr (map g xs)"
  using assms by (induction xs) auto

lemma map_res_all2:
  assumes "map_res f xs = Inr ys"
  shows "list_all2 (\<lambda>x y. f x = Inr y) xs ys"
  using assms
proof (induction xs arbitrary: ys)
  case Nil
  then show ?case by simp
next
  case (Cons x xs)
  then obtain y ys' where "f x = Inr y" and "map_res f xs = Inr ys'" and "ys = y # ys'"
    by (auto split: sum.splits)
  with Cons.IH show ?case by simp
qed

lemma concat_column_result:
  assumes "concat_column a b n = Inr c" and "wf_df a" and "wf_df b"
  shows "fst c = n \<and> length (cells (snd c)) = nrows a + nrows b"
  using assms wf_get_col_length[OF assms(2)] wf_get_col_length[OF assms(3)]
  by (auto simp: concat_column_def split: option.splits if_splits)

lemma wf_concat_rows:
  assumes "wf_df a" and "wf_df b" and "concat_rows a b = Inr c"
  shows "wf_df c"
proof -
  let ?names = "col_names a @ filter (\<lambda>n. n \<notin> set (col_names a)) (col_names b)"
  have ne: "columns a \<noteq> []" if "0 < nrows a + length (columns a)"
    using that assms(1) by (auto simp: wf_df_def)
  consider (none) "c = empty_df" | (left) "c = a" | (right) "c = b"
    | (both) cs where "columns a \<noteq> []" and "map_res (concat_column a b) ?names = Inr cs"
        and "c = \<lparr>nrows = nrows a + nrows b, columns = cs\<rparr>"
  proof (cases "0 < nrows a + length (columns a)")
    case False
    then show ?thesis using assms(3) that(1,3)
      by (cases "0 < nrows b + length (columns b)") (simp_all add: concat_rows_def)
  next
    case True
    show ?thesis
    proof (cases "0 < nrows b + length (columns b)")
      case False
      then show ?thesis using True assms(3) that(2) by (simp add: concat_rows_def)
    next
      case b: True
      from True b assms(3) obtain cs where "map_res (concat_column a b) ?names = Inr cs"
        and "c = \<lparr>nrows = nrows a + nrows b, columns = cs\<rparr>"
        by (auto simp: concat_rows_def and_then_def split: sum.splits)
      with ne[OF True] that(4) show ?thesis by blast
    qed
  qed
  then show ?thesis
  proof cases
    case none
    then show ?thesis by (simp add: wf_df_def empty_df_def col_names_def)
  next
    case left
    then show ?thesis using assms by simp
  next
    case right
    then show ?thesis using assms by simp
  next
    case both
    have all2: "list_all2 (\<lambda>n y. concat_column a b n = Inr y) ?names cs"
      by (rule map_res_all2[OF both(2)])
    have props: "list_all2 (\<lambda>n y. fst y = n \<and> length (cells (snd y)) = nrows a + nrows b) ?names cs"
      by (rule list_all2_mono[OF all2]) (use concat_column_result assms in blast)
    have names: "map fst cs = ?names"
      using props by (induction rule: list_all2_induct) auto
    have lens: "list_all (\<lambda>(k, s). length (cells s) = nrows a + nrows b) cs"
      using props by (induction rule: list_all2_induct) (auto simp: case_prod_beta)
    have "distinct ?names"
      using assms by (auto simp: wf_df_def)
    moreover have "cs \<noteq> []"
      using names both(1) by (auto simp: col_names_def)
    ultimately show ?thesis
      using lens names by (simp add: wf_df_def both(3) col_names_def)
  qed
qed

lemma drop_duplicates_result:
  assumes "wf_df c" and "drop_duplicates ks c = Inr m"
  shows "wf_df m \<and>
         (df_empty m \<or>
          list_all (has_col m) ks \<and> list_all (\<lambda>k. list_all hashable (key_cells m k)) ks \<and>
          distinct (row_keys m ks))"
proof -
  from drop_duplicates_cases[OF assms(2)] show ?thesis
  proof
    assume "df_empty c \<and> m = c"
    then show ?thesis using assms(1) by simp
  next
    let ?kept = "keep_first [] (row_keys c ks)"
    assume a: "\<not> df_empty c \<and> list_all (has_col c) ks \<and>
               list_all (\<lambda>k. list_all hashable (key_cells c k)) ks \<and> m = take_rows ?kept c"
    have len: "length ?kept = nrows c" by simp
    have wf: "wf_df m" using a wf_take_rows[OF assms(1) len] by simp
    have cols: "list_all (has_col m) ks" using a by (simp add: has_col_take_rows)
    have "list_all hashable (key_cells m k)" if "k \<in> set ks" for k
      using a that set_select[of ?kept "key_cells c k"]
      by (auto simp: key_cells_take_rows list_all_iff)
    then have hs: "list_all (\<lambda>k. list_all hashable (key_cells m k)) ks"
      by (simp add: list_all_iff)
    have "row_keys m ks = first_seen [] (row_keys c ks)"
      using a row_keys_take_rows[OF assms(1) _ len, of ks] by (simp add: select_keep_first)
    then have "distinct (row_keys m ks)"
      using first_seen_props[of "[]" "row_keys c ks"] by simp
    with wf cols hs show ?thesis by blast
  qed
qed

lemma concat_rows_self:
  assumes "wf_df m" and "columns m \<noteq> []"
  shows "concat_rows m m =
           Inr \<lparr>nrows = nrows m + nrows m,
                columns = map (\<lambda>(n, s). (n, s\<lparr>cells := cells s @ cells s\<rparr>)) (columns m)\<rparr>"
proof -
  let ?g = "\<lambda>(n, s). (n, s\<lparr>cells := cells s @ cells s\<rparr>)"
  let ?h = "\<lambda>n. (n, \<lparr>dtype = dtype (the (get_col m n)),
                         cells = cells (the (get_col m n)) @ cells (the (get_col m n))\<rparr>)"
  have "map_res (concat_column m m) (map fst (columns m)) = Inr (map ?h (map fst (columns m)))"
  proof (rule map_res_Inr)
    fix n assume "n \<in> set (map fst (columns m))"
    then obtain s where "(n, s) \<in> set (columns m)" by auto
    then have "get_col m n = Some s" by (rule wf_get_col[OF assms(1)])
    then show "concat_column m m n = Inr (?h n)"
      by (simp add: concat_column_def)
  qed
  moreover have "map ?h (map fst (columns m)) = map ?g (columns m)"
    unfolding map_map
  proof (rule map_cong[OF refl])
    fix p assume p: "p \<in> set (columns m)"
    obtain n s where ns: "p = (n, s)" by (cases p)
    have "get_col m n = Some s" using wf_get_col[OF assms(1)] p ns by simp
    then show "(?h \<circ> fst) p = ?g p" by (simp add: ns)
  qed
  ultimately have "map_res (concat_column m m) (map fst (columns m)) = Inr (map ?g (columns m))"
    by simp
  then show ?thesis
    using assms(2) by (simp add: concat_rows_def col_names_def and_then_def)
qed

lemma merge_self:
  assumes wf: "wf_df m"
    and keys: "df_empty m \<or>
       list_all (has_col m) ks \<and> list_all (\<lambda>k. list_all hashable (key_cells m k)) ks \<and>
       distinct (row_keys m ks)"
  shows "and_then (concat_rows m m) (drop_duplicates ks) = Inr m"
proof (cases "columns m = []")
  case True
  then have "m = empty_df" using wf by (simp add: wf_df_def empty_df_def)
  then show ?thesis
    by (simp add: concat_rows_def empty_df_def and_then_def drop_duplicates_def df_empty_def)
next
  case False
  let ?g = "\<lambda>(n, s). (n, s\<lparr>cells := cells s @ cells s\<rparr>)"
  let ?mm = "\<lparr>nrows = nrows m + nrows m, columns = map ?g (columns m)\<rparr>"
  have cc: "concat_rows m m = Inr ?mm" by (rule concat_rows_self[OF wf False])
  have len: "length (cells s) = nrows m" if "(n, s) \<in> set (columns m)" for n s
    using wf that by (auto simp: wf_df_def list_all_iff)
  show ?thesis
  proof (cases "nrows m = 0")
    case True
    have "map ?g (columns m) = columns m"
    proof (rule map_idI)
      fix p assume p: "p \<in> set (columns m)"
      obtain n s where ns: "p = (n, s)" by (cases p)
      have "cells s = []" using len[of n s] p ns True by simp
      then show "?g p = p" by (simp add: ns)
    qed
    then have "?mm = m" using True by simp
    then show ?thesis using True
      by (simp add: cc and_then_def drop_duplicates_def df_empty_def)
  next
    case rows: False
    then have k: "list_all (has_col m) ks"
      and h: "list_all (\<lambda>k. list_all hashable (key_cells m k)) ks"
      and d: "distinct (row_keys m ks)"
      using keys False by (auto simp: df_empty_def)
    have wfmm: "wf_df ?mm"
      using wf len False
      by (auto simp: wf_df_def list_all_iff col_names_def case_prod_beta comp_def)
    have gc: "get_col ?mm n = map_option (\<lambda>s. s\<lparr>cells := cells s @ cells s\<rparr>) (get_col m n)" for n
      using map_of_map_keep[of ?g "columns m" n] by (simp add: get_col_def)
    have kc: "key_cells ?mm n = key_cells m n @ key_cells m n" for n
      by (simp add: key_cells_def gc split: option.splits)
    have hc: "has_col ?mm = has_col m"
      by (rule ext) (simp add: has_col_def col_names_def case_prod_beta comp_def)
    have k': "list_all (has_col ?mm) ks" using k by (simp add: hc)
    have h': "list_all (\<lambda>k. list_all hashable (key_cells ?mm k)) ks"
      using h by (simp add: kc list_all_iff)
    let ?cs = "map (\<lambda>k. map hash_key (key_cells m k)) ks"
    have lcs: "\<forall>c \<in> set ?cs. length c = nrows m"
      using k key_cells_length[OF wf] by (auto simp: list_all_iff)
    have "row_keys ?mm ks = rows_of (map (\<lambda>k. map hash_key (key_cells ?mm k)) ks) (nrows ?mm)"
      by (rule row_keys_rows_of[OF wfmm k'])
    also have "\<dots> = rows_of (map (\<lambda>c. c @ c) ?cs) (nrows m + nrows m)"
      by (simp add: kc comp_def)
    also have "\<dots> = rows_of ?cs (nrows m) @ rows_of ?cs (nrows m)"
      by (rule rows_of_double[OF lcs])
    also have "\<dots> = row_keys m ks @ row_keys m ks"
      by (simp add: row_keys_rows_of[OF wf k])
    finally have rk: "row_keys ?mm ks = row_keys m ks @ row_keys m ks" .
    have kept: "keep_first [] (row_keys ?mm ks) =
                replicate (nrows m) True @ replicate (nrows m) False"
      unfolding rk keep_first_append
      using keep_first_all[OF d, of "[]"] keep_first_none[of "row_keys m ks" "row_keys m ks @ []"]
      by simp
    have "map (\<lambda>(k, s). (k, s\<lparr>cells := select (replicate (nrows m) True @ replicate (nrows m) False)
                                         (cells s)\<rparr>)) (map ?g (columns m)) = columns m"
      unfolding map_map
    proof (rule map_idI)
      fix p assume p: "p \<in> set (columns m)"
      obtain n s where ns: "p = (n, s)" by (cases p)
      have l: "length (cells s) = nrows m" using len[of n s] p ns by simp
      have "select (replicate (nrows m) True @ replicate (nrows m) False) (cells s @ cells s) = cells s"
        using l by (simp add: select_append select_all select_none)
      then show "((\<lambda>(k, s). (k, s\<lparr>cells := select (replicate (nrows m) True @
                    replicate (nrows m) False) (cells s)\<rparr>)) \<circ> ?g) p = p"
        by (simp add: ns)
    qed
    then have "take_rows (keep_first [] (row_keys ?mm ks)) ?mm = m"
      unfolding kept by (simp add: take_rows_def)
    moreover have "\<not> df_empty ?mm" using rows False by (simp add: df_empty_def)
    ultimately have "drop_duplicates ks ?mm = Inr m"
      using k' h' by (simp add: drop_duplicates_def)
    then show ?thesis by (simp add: cc and_then_def)
  qed
qed

text \<open>
  C4. Merge is idempotent: for well-formed tables \<open>A\<close> and \<open>B\<close> whose merge returns
  the table \<open>M\<close>, merging \<open>M\<close> with itself returns \<open>M\<close> again. So the result has the
  same rows, and with them the same set of composite keys (id, data_source), as \<open>M\<close>.
\<close>

theorem C4_merge_is_idempotent:
  assumes "wf_df a" and "wf_df b" and "merge_datasets a b = Inr m"
  shows "merge_datasets m m = Inr m \<and>
         (\<forall>m'. merge_datasets m m = Inr m' \<longrightarrow>
            set (row_keys m' [''id'', ''data_source'']) = set (row_keys m [''id'', ''data_source'']))"
proof -
  from assms(3) obtain c where c: "concat_rows a b = Inr c"
    and m: "drop_duplicates [''id'', ''data_source''] c = Inr m"
    by (auto simp: merge_datasets_def and_then_def split: sum.splits)
  have "wf_df c" by (rule wf_concat_rows[OF assms(1,2) c])
  from drop_duplicates_result[OF this m] have "merge_datasets m m = Inr m"
    unfolding merge_datasets_def by (intro merge_self) auto
  then show ?thesis by simp
qed

lemma clean_one_book: "clean_web_scraped_data process_a one_book = Inr one_book_clean"
  by (simp add: model_defs process_a_def one_book_def one_book_clean_def upt_rec)

lemma merge_example: "merge_datasets unpriced_clean one_book_clean = Inr merged_example"
  by (simp add: merge_datasets_def concat_rows_def concat_column_def and_then_def
      unpriced_clean_def one_book_clean_def merged_example_def col_names_def get_col_def
      drop_duplicates_def df_empty_def has_col_def key_cells_def row_keys_def take_rows_def
      select_def upt_rec numeral_2_eq_2)

theorem C4_merge_is_idempotent_witness:
  "wf_df unpriced_clean \<and> wf_df one_book_clean \<and>
   merge_datasets unpriced_clean one_book_clean = Inr merged_example \<and>
   merge_datasets merged_example merged_example = Inr merged_example"
proof -
  have a: "wf_df unpriced_clean"
    by (simp add: wf_df_def unpriced_clean_def col_names_def)
  have b: "wf_df one_book_clean"
    by (simp add: wf_df_def one_book_clean_def col_names_def)
  from C4_merge_is_idempotent[OF a b merge_example] a b merge_example
  show ?thesis by simp
qed

section \<open>Deduplication in the normalizers\<close>

lemma keep_first_map_inj:
  assumes "inj_on f (set seen \<union> set ks)"
  shows "keep_first (map f seen) (map f ks) = keep_first seen ks"
  using assms
proof (induction ks arbitrary: seen)
  case Nil
  show ?case by simp
next
  case (Cons k ks)
  have "inj_on f (set (k # seen) \<union> set ks)"
    using Cons.prems by (simp add: insert_commute Un_commute)
  from Cons.IH[OF this] have ih: "keep_first (f k # map f seen) (map f ks) = keep_first (k # seen) ks"
    by simp
  have "f k \<in> f ` set seen \<longleftrightarrow> k \<in> set seen"
    using Cons.prems by (auto simp: inj_on_def)
  then show ?case by (simp add: ih)
qed

lemma select_keep_first_lookup:
  assumes "length vs = length ks"
  shows "select (keep_first seen ks) vs = map (\<lambda>k. the (map_of (zip ks vs) k)) (first_seen seen ks)"
  using assms
proof (induction ks arbitrary: seen vs)
  case Nil
  then show ?case by simp
next
  case (Cons k ks)
  then obtain v vs' where vs: "vs = v # vs'" and len: "length vs' = length ks"
    by (cases vs) auto
  have other: "map (\<lambda>x. the (map_of (zip (k # ks) (v # vs')) x)) (first_seen (k # seen) ks) =
               map (\<lambda>x. the (map_of (zip ks vs') x)) (first_seen (k # seen) ks)"
    using first_seen_props[of "k # seen" ks] by (intro map_cong refl) auto
  have ih: "select (keep_first (k # seen) ks) vs' =
            map (\<lambda>x. the (map_of (zip ks vs') x)) (first_seen (k # seen) ks)"
    by (rule Cons.IH[OF len])
  show ?case
  proof (cases "k \<in> set seen")
    case True
    then have "first_seen (k # seen) ks = first_seen seen ks"
      by (intro first_seen_cong) auto
    with True ih other show ?thesis by (simp add: vs)
  next
    case False
    with ih other show ?thesis by (simp add: vs)
  qed
qed

lemma rect_length:
  assumes "rect df" and "get_col df n = Some s"
  shows "length (cells s) = nrows df"
  using assms get_col_mem[OF assms(2)] by (auto simp: rect_def list_all_iff)

lemma row_keys_single:
  assumes "get_col df k = Some s" and "length (cells s) = nrows df"
  shows "row_keys df [k] = map (\<lambda>c. [hash_key c]) (cells s)"
proof -
  have "map (\<lambda>i. [hash_key (cells s ! i)]) [0..<length (cells s)] = map (\<lambda>c. [hash_key c]) (cells s)"
    by (rule nth_equalityI) simp_all
  then show ?thesis using assms by (simp add: row_keys_def key_cells_def)
qed

lemma hash_key_num: "is_num c \<Longrightarrow> hash_key c = c"
  by (cases c) simp_all

lemma hashable_num: "is_num c \<Longrightarrow> hashable c"
  by (cases c) simp_all

lemma not_na_num: "is_num c \<Longrightarrow> \<not> is_na c"
  by (cases c) simp_all

lemma kept_by_id:
  assumes "get_col df ''id'' = Some s" and "length (cells s) = nrows df"
    and "list_all is_num (cells s)"
  shows "keep_first [] (row_keys df [''id'']) = keep_first [] (cells s)"
proof -
  have "map (\<lambda>c. [hash_key c]) (cells s) = map (\<lambda>c. [c]) (cells s)"
    using assms(3) by (intro map_cong refl) (simp add: list_all_iff hash_key_num)
  then have "row_keys df [''id''] = map (\<lambda>c. [c]) (cells s)"
    using row_keys_single[OF assms(1,2)] by simp
  moreover have "keep_first (map (\<lambda>c. [c]) []) (map (\<lambda>c. [c]) (cells s)) = keep_first [] (cells s)"
    by (rule keep_first_map_inj) (simp add: inj_on_def)
  ultimately show ?thesis by simp
qed

lemma coerce_numeric_col_other:
  assumes "coerce_numeric_col col df = Inr t" and "n \<noteq> col"
  shows "get_col t n = get_col df n" and "nrows t = nrows df"
  using assms
  by (auto simp: coerce_numeric_col_def and_then_def get_col_set_col nrows_set_col
      split: option.splits sum.splits)

lemma coerce_bool_cols_other:
  assumes "coerce_bool_cols cols df = Inr t" and "n \<notin> set cols"
  shows "get_col t n = get_col df n \<and> nrows t = nrows df"
  using assms
proof (induction cols arbitrary: df)
  case Nil
  then show ?case by simp
next
  case (Cons col rest)
  show ?case
  proof (cases "get_col df col")
    case None
    then show ?thesis using Cons by simp
  next
    case (Some s)
    then obtain s' where r: "coerce_bool_cols rest (set_col df col s') = Inr t"
      using Cons.prems(1) by (auto simp: and_then_def split: sum.splits)
    from Cons.IH[OF r] Cons.prems(2) show ?thesis
      by (simp add: get_col_set_col nrows_set_col)
  qed
qed

lemma validate_steps:
  assumes "validate_data_types df = Inr t"
  obtains d1 d2 d3 d4 where
    "coerce_numeric_col ''price'' df = Inr d1" and "coerce_numeric_col ''rating'' d1 = Inr d2" and
    "coerce_numeric_col ''stock'' d2 = Inr d3" and "coerce_id_col d3 = Inr d4" and
    "coerce_bool_cols bool_candidates d4 = Inr t"
  using assms by (auto simp: validate_data_types_def and_then_def split: sum.splits)

lemma coerce_id_col_other:
  assumes "coerce_id_col df = Inr t"
  shows "n \<noteq> ''id'' \<Longrightarrow> get_col t n = get_col df n" and "nrows t = nrows df"
  using assms
  by (auto simp: coerce_id_col_def and_then_def get_col_set_col nrows_set_col
      split: option.splits sum.splits)

lemma coerce_id_col_numeric:
  assumes "coerce_id_col df = Inr t" and "get_col df ''id'' = Some s" and "dtype s = Numeric"
  shows "get_col t ''id'' = Some (s\<lparr>dtype := Int64NA\<rparr>)"
  using assms
  by (auto simp: coerce_id_col_def and_then_def get_col_set_col to_numeric_def astype_Int64_def
      split: sum.splits if_splits)

lemma validate_other:
  assumes "validate_data_types df = Inr t" and "n \<notin> set coerced_columns"
  shows "get_col t n = get_col df n"
proof -
  from assms(1) obtain d1 d2 d3 d4 where
    s1: "coerce_numeric_col ''price'' df = Inr d1" and s2: "coerce_numeric_col ''rating'' d1 = Inr d2" and
    s3: "coerce_numeric_col ''stock'' d2 = Inr d3" and s4: "coerce_id_col d3 = Inr d4" and
    s5: "coerce_bool_cols bool_candidates d4 = Inr t"
    by (rule validate_steps)
  have n: "n \<noteq> ''price''" "n \<noteq> ''rating''" "n \<noteq> ''stock''" "n \<noteq> ''id''" "n \<notin> set bool_candidates"
    using assms(2) by (auto simp: coerced_columns_def bool_candidates_def)
  have "get_col t n = get_col d4 n" using coerce_bool_cols_other[OF s5 n(5)] by simp
  also have "\<dots> = get_col d3 n" by (rule coerce_id_col_other(1)[OF s4 n(4)])
  also have "\<dots> = get_col d2 n" by (rule coerce_numeric_col_other(1)[OF s3 n(3)])
  also have "\<dots> = get_col d1 n" by (rule coerce_numeric_col_other(1)[OF s2 n(2)])
  also have "\<dots> = get_col df n" by (rule coerce_numeric_col_other(1)[OF s1 n(1)])
  finally show ?thesis .
qed

lemma validate_id:
  assumes "validate_data_types df = Inr t" and "get_col df ''id'' = Some s" and "dtype s = Numeric"
  shows "get_col t ''id'' = Some (s\<lparr>dtype := Int64NA\<rparr>)" and "nrows t = nrows df"
proof -
  from assms(1) obtain d1 d2 d3 d4 where
    s1: "coerce_numeric_col ''price'' df = Inr d1" and s2: "coerce_numeric_col ''rating'' d1 = Inr d2" and
    s3: "coerce_numeric_col ''stock'' d2 = Inr d3" and s4: "coerce_id_col d3 = Inr d4" and
    s5: "coerce_bool_cols bool_candidates d4 = Inr t"
    by (rule validate_steps)
  have "get_col d3 ''id'' = Some s"
    using coerce_numeric_col_other(1)[OF s3, of "''id''"] coerce_numeric_col_other(1)[OF s2, of "''id''"]
      coerce_numeric_col_other(1)[OF s1, of "''id''"] assms(2) by simp
  from coerce_id_col_numeric[OF s4 this assms(3)]
  show "get_col t ''id'' = Some (s\<lparr>dtype := Int64NA\<rparr>)"
    using coerce_bool_cols_other[OF s5, of "''id''"] by (simp add: bool_candidates_def)
  show "nrows t = nrows df"
    using coerce_bool_cols_other[OF s5, of "''id''"] coerce_id_col_other(2)[OF s4]
      coerce_numeric_col_other(2)[OF s3, of "''id''"] coerce_numeric_col_other(2)[OF s2, of "''id''"]
      coerce_numeric_col_other(2)[OF s1, of "''id''"]
    by (simp add: bool_candidates_def)
qed

lemma fill_column_num:
  assumes "dtype s = Numeric" and "list_all is_num (cells s)"
  shows "fill_column n s = s"
proof -
  have "\<not> has_na s"
    using assms(2) by (auto simp: has_na_def list_all_iff list_ex_iff not_na_num)
  then show ?thesis using assms(1)
    by (simp add: fill_column_def fill_numeric_def fill_string_def fill_bool_def)
qed

lemma fill_column_text:
  assumes "dtype s = Object"
  shows "fill_column n s = s\<lparr>cells := map (fill_text n) (cells s)\<rparr>"
proof (cases "has_na s")
  case True
  then show ?thesis using assms
    by (auto simp: fill_column_def fill_numeric_def fill_string_def fill_bool_def fillna_def
        fill_text_def)
next
  case False
  then have "map (fill_text n) (cells s) = cells s"
    by (intro map_idI) (auto simp: has_na_def list_ex_iff fill_text_def)
  with False show ?thesis using assms
    by (simp add: fill_column_def fill_numeric_def fill_string_def fill_bool_def)
qed

lemma nrows_handle_missing_values: "nrows (handle_missing_values df) = nrows df"
  by (simp add: handle_missing_values_def)

lemma normalizer_tail_first_occurrence:
  assumes dd: "drop_duplicates [''id''] f = Inr d"
    and va: "validate_data_types (handle_missing_values d) = Inr t"
    and re: "rect f" and ne: "nrows f \<noteq> 0" and ids: "numeric_ids f"
  shows "key_cells t ''id'' = rev (remdups (rev (key_cells f ''id'')))"
    and "nrows t = length (remdups (key_cells f ''id''))"
    and "\<And>n s. get_col f n = Some s \<Longrightarrow> dtype s = Object \<Longrightarrow> n \<notin> set coerced_columns \<Longrightarrow>
           key_cells t n =
             map (\<lambda>k. fill_text n (the (map_of (zip (key_cells f ''id'') (cells s)) k)))
               (rev (remdups (rev (key_cells f ''id''))))"
proof -
  from ids obtain si where si: "get_col f ''id'' = Some si" and dt: "dtype si = Numeric"
    and num: "list_all is_num (cells si)"
    by (auto simp: numeric_ids_def split: option.splits)
  have kc: "key_cells f ''id'' = cells si" by (simp add: key_cells_def si)
  have len: "length (cells si) = nrows f" by (rule rect_length[OF re si])
  have cols: "columns f \<noteq> []" using get_col_mem[OF si] by auto
  have hs: "list_all hashable (key_cells f ''id'')"
    using num by (auto simp: kc list_all_iff hashable_num)
  let ?kept = "keep_first [] (cells si)"
  have d: "d = take_rows ?kept f"
    using dd ne cols hs si kept_by_id[OF si len num]
    by (simp add: drop_duplicates_def df_empty_def has_col_get_col)
  have did: "get_col d ''id'' = Some (si\<lparr>cells := first_seen [] (cells si)\<rparr>)"
    by (simp add: d get_col_take_rows si select_keep_first)
  have fnum: "list_all is_num (first_seen [] (cells si))"
    using num first_seen_props[of "[]" "cells si"] by (auto simp: list_all_iff)
  have hid: "get_col (handle_missing_values d) ''id'' = Some (si\<lparr>cells := first_seen [] (cells si)\<rparr>)"
    using fill_column_num[of "si\<lparr>cells := first_seen [] (cells si)\<rparr>" "''id''"] dt fnum
    by (simp add: get_col_handle_missing_values did)
  from validate_id[OF va hid] dt
  have tid: "get_col t ''id'' = Some (si\<lparr>cells := first_seen [] (cells si), dtype := Int64NA\<rparr>)"
    and tn: "nrows t = nrows (handle_missing_values d)"
    by simp_all
  have "key_cells t ''id'' = first_seen [] (cells si)"
    by (simp add: key_cells_def tid)
  then show "key_cells t ''id'' = rev (remdups (rev (key_cells f ''id'')))"
    by (simp add: kc first_seen_remdups)
  have "nrows d = length (filter id ?kept)" by (simp add: d nrows_take_rows)
  also have "\<dots> = length (select ?kept (cells si))"
    by (rule length_select[symmetric]) simp
  also have "\<dots> = length (rev (remdups (rev (cells si))))"
    by (simp add: select_keep_first first_seen_remdups)
  also have "\<dots> = length (remdups (cells si))"
    by (simp add: length_remdups_card_conv)
  finally show "nrows t = length (remdups (key_cells f ''id''))"
    by (simp add: tn nrows_handle_missing_values kc)
  fix n s
  assume s: "get_col f n = Some s" and ob: "dtype s = Object" and nc: "n \<notin> set coerced_columns"
  have ls: "length (cells s) = length (cells si)" using rect_length[OF re s] len by simp
  have "get_col t n = get_col (handle_missing_values d) n" by (rule validate_other[OF va nc])
  also have "\<dots> = Some (fill_column n (s\<lparr>cells := select ?kept (cells s)\<rparr>))"
    by (simp add: get_col_handle_missing_values d get_col_take_rows s)
  also have "fill_column n (s\<lparr>cells := select ?kept (cells s)\<rparr>) =
             s\<lparr>cells := map (fill_text n) (select ?kept (cells s))\<rparr>"
    using fill_column_text[of "s\<lparr>cells := select ?kept (cells s)\<rparr>" n] ob by simp
  finally have "key_cells t n = map (fill_text n) (select ?kept (cells s))"
    by (simp add: key_cells_def)
  also have "select ?kept (cells s) =
             map (\<lambda>k. the (map_of (zip (cells si) (cells s)) k)) (first_seen [] (cells si))"
    by (rule select_keep_first_lookup[OF ls])
  finally show "key_cells t n =
             map (\<lambda>k. fill_text n (the (map_of (zip (key_cells f ''id'') (cells s)) k)))
               (rev (remdups (rev (key_cells f ''id''))))"
    by (simp add: kc first_seen_remdups comp_def)
qed

section \<open>The frames the normalizers deduplicate\<close>

lemma length_infer_series [simp]: "length (cells (infer_series cs)) = length cs"
  by (simp add: infer_series_def)

lemma nrows_DataFrame [simp]: "nrows (DataFrame recs) = length recs"
  by (simp add: DataFrame_def)

lemma rect_DataFrame: "rect (DataFrame recs)"
  by (simp add: rect_def DataFrame_def list_all_iff)

lemma nrows_standardize_columns [simp]: "nrows (standardize_columns df) = nrows df"
  by (simp add: standardize_columns_def)

lemma rect_standardize_columns: "rect df \<Longrightarrow> rect (standardize_columns df)"
  by (auto simp: rect_def standardize_columns_def list_all_iff)

lemma rect_set_col:
  assumes "rect df" and "length (cells s) = nrows df"
  shows "rect (set_col df n s)"
  using assms by (auto simp: rect_def set_col_def list_all_iff split: if_splits)

lemma nrows_drop_col [simp]: "nrows (drop_col df n) = nrows df"
  by (simp add: drop_col_def)

lemma rect_drop_col: "rect df \<Longrightarrow> rect (drop_col df n)"
  by (auto simp: rect_def drop_col_def list_all_iff)

lemma length_const_series [simp]: "length (cells (const_series df v)) = nrows df"
  by (simp add: const_series_def)

lemma length_row_get: "rect df \<Longrightarrow> length (row_get df n dflt) = nrows df"
  by (auto simp: row_get_def rect_length split: option.splits)

lemma length_synth_ids: "rect df \<Longrightarrow> length (cells (synth_ids env df)) = nrows df"
  by (simp add: synth_ids_def length_row_get)

lemma num_synth_ids: "list_all is_num (cells (synth_ids env df))"
  by (auto simp: synth_ids_def list_all_iff)

lemma web_tagged_props:
  "rect (web_tagged env products)" "nrows (web_tagged env products) = length products"
  "get_col (web_tagged env products) ''id'' =
     Some (synth_ids env (standardize_columns (DataFrame products)))"
proof -
  let ?raw = "standardize_columns (DataFrame products)"
  have r: "rect ?raw" by (intro rect_standardize_columns rect_DataFrame)
  show "rect (web_tagged env products)"
    unfolding web_tagged_def Let_def
    by (intro rect_set_col r) (simp_all add: nrows_set_col length_synth_ids[OF r])
  show "nrows (web_tagged env products) = length products"
    by (simp add: web_tagged_def Let_def nrows_set_col)
  show "get_col (web_tagged env products) ''id'' = Some (synth_ids env ?raw)"
    by (simp add: web_tagged_def Let_def get_col_set_col)
qed

lemma numeric_ids_web_tagged: "numeric_ids (web_tagged env products)"
  by (simp add: numeric_ids_def web_tagged_props(3) num_synth_ids) (simp add: synth_ids_def)

lemma clean_web_tail:
  assumes "products \<noteq> []"
  shows "clean_web_scraped_data env products =
           and_then (drop_duplicates [''id''] (web_tagged env products))
             (\<lambda>df. validate_data_types (handle_missing_values df))"
  using assms by (simp add: clean_web_scraped_data_def web_tagged_def Let_def)

lemma clean_api_tail:
  assumes "products \<noteq> []"
  shows "clean_api_data env products =
           and_then (api_tagged env products) (\<lambda>f.
             and_then (drop_duplicates [''id''] f)
               (\<lambda>df. validate_data_types (handle_missing_values df)))"
  using assms
  by (simp add: clean_api_data_def api_tagged_def Let_def and_then_def split: sum.splits)

lemma length_those: "those xs = Some ys \<Longrightarrow> length ys = length xs"
  by (induction xs arbitrary: ys) (auto split: option.splits)

lemma length_map_res: "map_res f xs = Inr ys \<Longrightarrow> length ys = length xs"
  using map_res_all2[of f xs ys] by (simp add: list_all2_lengthD)

lemma flatten_dimensions_rect:
  assumes "flatten_dimensions df = Inr t" and "rect df"
  shows "rect t \<and> nrows t = nrows df"
proof (cases "get_col df ''dimensions''")
  case None
  then show ?thesis using assms by (simp add: flatten_dimensions_def)
next
  case (Some s)
  then obtain ds where ds: "those (map flat_dict (cells s)) = Some ds"
    and t: "t = (drop_col df ''dimensions'')
                 \<lparr>columns := columns (drop_col df ''dimensions'') @
                    map (\<lambda>(col, v). (''dimension_'' @ col, v)) (columns (DataFrame ds))\<rparr>"
    using assms(1)
    by (auto simp: flatten_dimensions_def json_normalize_def and_then_def split: option.splits)
  have "length ds = nrows df"
    using length_those[OF ds] rect_length[OF assms(2) Some] by simp
  then have "list_all (\<lambda>(k, s). length (cells s) = nrows df)
               (map (\<lambda>(col, v). (''dimension_'' @ col, v)) (columns (DataFrame ds)))"
    using rect_DataFrame[of ds] by (auto simp: rect_def list_all_iff)
  moreover have "list_all (\<lambda>(k, s). length (cells s) = nrows df) (columns (drop_col df ''dimensions''))"
    using rect_drop_col[OF assms(2), of "''dimensions''"] by (simp add: rect_def)
  ultimately show ?thesis by (simp add: t rect_def)
qed

lemma flatten_reviews_rect:
  assumes "flatten_reviews df = Inr t" and "rect df"
  shows "rect t \<and> nrows t = nrows df"
proof (cases "get_col df ''reviews''")
  case None
  then show ?thesis using assms by (simp add: flatten_reviews_def)
next
  case (Some s)
  then obtain avgs where avgs: "map_res avg_review_rating (cells s) = Inr avgs"
    and t: "t = drop_col
                  (set_col (set_col df ''avg_review_rating'' (infer_series avgs))
                     ''num_reviews'' (infer_series (map list_len (cells s))))
                  ''reviews''"
    using assms(1) by (auto simp: flatten_reviews_def and_then_def split: sum.splits)
  have l: "length (cells s) = nrows df" by (rule rect_length[OF assms(2) Some])
  have "rect (set_col df ''avg_review_rating'' (infer_series avgs))"
    by (rule rect_set_col[OF assms(2)]) (simp add: length_map_res[OF avgs] l)
  then have "rect (set_col (set_col df ''avg_review_rating'' (infer_series avgs))
                     ''num_reviews'' (infer_series (map list_len (cells s))))"
    by (rule rect_set_col) (simp add: nrows_set_col l)
  then show ?thesis by (simp add: t rect_drop_col nrows_set_col)
qed

lemma flatten_images_rect:
  assumes "rect df"
  shows "rect (flatten_images df) \<and> nrows (flatten_images df) = nrows df"
proof (cases "get_col df ''images''")
  case None
  then show ?thesis using assms by (simp add: flatten_images_def)
next
  case (Some s)
  have l: "length (cells s) = nrows df" by (rule rect_length[OF assms Some])
  have "rect (set_col df ''main_image'' (infer_series (map first_item (cells s))))"
    by (rule rect_set_col[OF assms]) (simp add: l)
  then have "rect (set_col (set_col df ''main_image'' (infer_series (map first_item (cells s))))
                     ''num_images'' (infer_series (map list_len (cells s))))"
    by (rule rect_set_col) (simp add: nrows_set_col l)
  then show ?thesis by (simp add: flatten_images_def Some rect_drop_col nrows_set_col)
qed

lemma api_tagged_props:
  assumes "api_tagged env products = Inr f"
  shows "rect f \<and> nrows f = length products"
proof -
  from assms obtain d1 d2 where
    s1: "flatten_dimensions (DataFrame products) = Inr d1" and
    s2: "flatten_reviews (if has_col d1 ''meta'' then drop_col d1 ''meta'' else d1) = Inr d2" and
    f: "f = (let df = standardize_columns (flatten_images d2);
                 df = set_col df ''data_source'' (const_series df (Str ''DummyJSON_API''))
             in set_col df ''scraped_at'' (const_series df (Str (now env))))"
    by (auto simp: api_tagged_def and_then_def Let_def split: sum.splits)
  have r1: "rect d1 \<and> nrows d1 = length products"
    using flatten_dimensions_rect[OF s1 rect_DataFrame] by simp
  then have "rect (if has_col d1 ''meta'' then drop_col d1 ''meta'' else d1)"
    by (simp add: rect_drop_col)
  from flatten_reviews_rect[OF s2 this] r1 have r2: "rect d2 \<and> nrows d2 = length products"
    by simp
  let ?raw = "standardize_columns (flatten_images d2)"
  have r3: "rect ?raw \<and> nrows ?raw = length products"
    using flatten_images_rect[of d2] r2 by (simp add: rect_standardize_columns)
  have "rect (set_col ?raw ''data_source'' (const_series ?raw (Str ''DummyJSON_API'')))"
    by (rule rect_set_col) (use r3 in simp_all)
  then have "rect f"
    unfolding f Let_def by (rule rect_set_col) (simp add: nrows_set_col)
  moreover have "nrows f = length products"
    using r3 by (simp add: f Let_def nrows_set_col)
  ultimately show ?thesis by simp
qed

text \<open>
  C6 (as stated, refuted). Deduplication compares the ids as they are before the fill
  and the coercion. An API record without id passes it with a missing id, which the
  missing-value step then fills with the median of the other ids, 2: the second and
  the third record both end with the id 2. And the ids \<^verbatim>\<open>1\<close> and \<^verbatim>\<open>'1'\<close> differ
  when duplicates are dropped and are both 1 after coercion. In both cases the returned
  table has two rows for one id.
\<close>

theorem C6_later_equal_ids_are_both_kept:
  "result_col (clean_api_data process_a missing_id_products) ''id'' =
     Some \<lparr>dtype = Int64NA, cells = [Num 1, Num 2, Num 2, Num 3]\<rparr> \<and>
   result_col (clean_api_data process_a mixed_id_products) ''id'' =
     Some \<lparr>dtype = Int64NA, cells = [Num 1, Num 1]\<rparr> \<and>
   \<not> distinct [Num 1, Num 2, Num 2, Num 3] \<and> \<not> distinct [Num 1, Num 1]"
proof -
  have "result_col (clean_api_data process_a missing_id_products) ''id'' =
     Some \<lparr>dtype = Int64NA, cells = [Num 1, Num 2, Num 2, Num 3]\<rparr>"
    by (simp add: model_defs process_a_def missing_id_products_def upt_rec)
  moreover have "result_col (clean_api_data process_a mixed_id_products) ''id'' =
     Some \<lparr>dtype = Int64NA, cells = [Num 1, Num 1]\<rparr>"
    by (simp add: model_defs process_a_def mixed_id_products_def upt_rec parse_decimal_def
        parse_unsigned_def digit_val_def)
  ultimately show ?thesis by simp
qed

text \<open>
  C6 (amended). Let \<open>f\<close> be the frame of the input records, one row for each record
  in input order, as the normalizer hands it to \<^verbatim>\<open>drop_duplicates\<close>. When its id
  column holds numbers only (always so for the web source, whose ids are synthesized;
  for the API source when every record carries its numeric id), the id column of the
  returned table lists every id once, in the order of first occurrence; the row count
  is the number of different ids; and a text column that coercion leaves alone holds,
  for each id, the (filled) cell of the first input row with that id.
\<close>

theorem C6_normalizer_keeps_first_occurrence:
  assumes "products \<noteq> []"
    and "clean_web_scraped_data env products = Inr t \<and> f = web_tagged env products \<or>
         clean_api_data env products = Inr t \<and> api_tagged env products = Inr f \<and> numeric_ids f"
  shows "key_cells t ''id'' = rev (remdups (rev (key_cells f ''id''))) \<and>
         distinct (key_cells t ''id'') \<and>
         nrows t = length (remdups (key_cells f ''id'')) \<and>
         (\<forall>n s. get_col f n = Some s \<and> dtype s = Object \<and> n \<notin> set coerced_columns \<longrightarrow>
            key_cells t n =
              map (\<lambda>k. fill_text n (the (map_of (zip (key_cells f ''id'') (cells s)) k)))
                (rev (remdups (rev (key_cells f ''id'')))))"
proof -
  have "\<exists>d. drop_duplicates [''id''] f = Inr d \<and>
            validate_data_types (handle_missing_values d) = Inr t"
    using assms(2)
  proof
    assume a: "clean_web_scraped_data env products = Inr t \<and> f = web_tagged env products"
    then show ?thesis
      using clean_web_tail[OF assms(1), of env]
      by (auto simp: and_then_def split: sum.splits)
  next
    assume a: "clean_api_data env products = Inr t \<and> api_tagged env products = Inr f \<and> numeric_ids f"
    then show ?thesis
      using clean_api_tail[OF assms(1), of env]
      by (auto simp: and_then_def split: sum.splits)
  qed
  then obtain d where dd: "drop_duplicates [''id''] f = Inr d"
    and va: "validate_data_types (handle_missing_values d) = Inr t"
    by blast
  have re: "rect f" and nr: "nrows f = length products" and ids: "numeric_ids f"
    using assms(2) web_tagged_props(1,2)[of env products] numeric_ids_web_tagged[of env products]
      api_tagged_props[of env products f]
    by auto
  have ne: "nrows f \<noteq> 0" using nr assms(1) by simp
  note main = normalizer_tail_first_occurrence[OF dd va re ne ids]
  have "distinct (key_cells t ''id'')"
    unfolding main(1) by simp
  with main show ?thesis by blast
qed

lemma clean_three_books: "clean_web_scraped_data process_len three_books = Inr three_books_clean"
  by (simp add: model_defs process_len_def three_books_def three_books_clean_def upt_rec)

lemma three_books_ids:
  "key_cells (web_tagged process_len three_books) ''id'' = [Num 3, Num 3, Num 4]"
proof -
  have "key_cells (web_tagged process_len three_books) ''id'' =
        cells (synth_ids process_len (standardize_columns (DataFrame three_books)))"
    by (simp add: key_cells_def web_tagged_props(3))
  also have "\<dots> = [Num 3, Num 3, Num 4]"
    by (simp add: synth_ids_def synth_id_def py_format_def row_get_def process_len_def
        three_books_def standardize_columns_def DataFrame_def infer_series_def dict_get_def
        get_col_def standard_name_def lower_char_def)
  finally show ?thesis .
qed

theorem C6_first_occurrence_witness:
  "three_books \<noteq> [] \<and>
   clean_web_scraped_data process_len three_books = Inr three_books_clean \<and>
   key_cells (web_tagged process_len three_books) ''id'' = [Num 3, Num 3, Num 4] \<and>
   key_cells three_books_clean ''id'' = [Num 3, Num 4] \<and>
   nrows three_books_clean = 2 \<and>
   key_cells three_books_clean ''category'' = [Str ''x'', Str ''Unknown'']"
proof -
  have ne: "three_books \<noteq> []" by (simp add: three_books_def)
  from C6_normalizer_keeps_first_occurrence[OF ne disjI1[OF conjI[OF clean_three_books refl]]]
  have "key_cells three_books_clean ''id'' =
          rev (remdups (rev (key_cells (web_tagged process_len three_books) ''id'')))"
    by blast
  then have "key_cells three_books_clean ''id'' = [Num 3, Num 4]"
    by (simp add: three_books_ids)
  moreover have "nrows three_books_clean = 2"
    "key_cells three_books_clean ''category'' = [Str ''x'', Str ''Unknown'']"
    by (simp_all add: three_books_clean_def key_cells_def get_col_def)
  ultimately show ?thesis
    using ne clean_three_books three_books_ids by simp
qed

end
